theory Spec2Isabelle
  imports Main "HOL-Library.Word" "HOL-Library.Sublist"
begin

unbundle bit_operations_syntax

chapter \<open>tlog: event encoders, labels and the rotating file sink\<close>

text \<open>
  The Go sources embedded here are \<^verbatim>\<open>writers.go\<close> (ConsoleWriter, JSONWriter,
  ProtoWriter and the varint codec), \<^verbatim>\<open>rotated/file.go\<close> (the size-bounded file sink)
  and the \<^verbatim>\<open>Labels\<close> methods of the package's main file. A \<^verbatim>\<open>[]byte\<close> is a list
  of 8-bit words, a Go \<^verbatim>\<open>string\<close> is a \<^typ>\<open>string\<close>, \<^verbatim>\<open>uint64\<close>, \<^verbatim>\<open>int64\<close> and
  \<^verbatim>\<open>uintptr\<close> are 64-bit words, a panic is the \<^verbatim>\<open>Inl\<close> branch of a sum.
\<close>

section \<open>Definitions\<close>

subsection \<open>Byte slices\<close>

type_synonym byte = "8 word"
type_synonym uint64 = "64 word"
type_synonym int64 = "64 word"

text \<open>An index or a slice bound out of range is a run-time panic.\<close>

datatype panic = IndexOutOfRange | SliceBoundsOutOfRange

text \<open>\<^verbatim>\<open>xs[i]\<close>, read and written, with the bounds check.\<close>

definition index_s :: "'a list \<Rightarrow> int \<Rightarrow> panic + 'a" where
  "index_s xs i = (if 0 \<le> i \<and> i < int (length xs) then Inr (xs ! nat i) else Inl IndexOutOfRange)"

definition store_s :: "'a list \<Rightarrow> int \<Rightarrow> 'a \<Rightarrow> panic + 'a list" where
  "store_s xs i v =
    (if 0 \<le> i \<and> i < int (length xs) then Inr (xs[nat i := v]) else Inl IndexOutOfRange)"

text \<open>
  A slice whose spare capacity matters is a pair: the visible elements (up to \<^verbatim>\<open>len\<close>)
  and the content of the backing array between \<^verbatim>\<open>len\<close> and \<^verbatim>\<open>cap\<close>. \<^verbatim>\<open>append\<close> writes
  into the spare part while it fits; when it does not, the new array is taken to be
  exactly as long as the result (Go leaves the growth policy open).
\<close>

type_synonym slice = "byte list \<times> byte list"

definition append_s :: "slice \<Rightarrow> byte list \<Rightarrow> slice" where
  "append_s b xs = (fst b @ xs, drop (length xs) (snd b))"

text \<open>\<^verbatim>\<open>b[:0]\<close>: the length drops to zero, the array keeps its content.\<close>

definition reslice0 :: "slice \<Rightarrow> slice" where
  "reslice0 b = ([], fst b @ snd b)"

definition cap_s :: "slice \<Rightarrow> nat" where
  "cap_s b = length (fst b) + length (snd b)"

text \<open>
  \<^verbatim>\<open>b[:n]\<close>: allowed up to the capacity, a panic beyond it; the elements that become
  visible are those the array holds there.
\<close>

definition reslice :: "slice \<Rightarrow> nat \<Rightarrow> panic + slice" where
  "reslice b n =
    (if n \<le> cap_s b then Inr (take n (fst b @ snd b), drop n (fst b @ snd b))
     else Inl SliceBoundsOutOfRange)"

text \<open>
  \<^verbatim>\<open>copy(b[i:], src)\<close> within the visible part: as many elements as both sides have.
\<close>

definition copy_at :: "byte list \<Rightarrow> nat \<Rightarrow> byte list \<Rightarrow> byte list" where
  "copy_at xs i src =
    (let n = min (length xs - i) (length src) in take i xs @ take n src @ drop (i + n) xs)"

text \<open>\<^verbatim>\<open>append(b, s...)\<close> for a string \<^verbatim>\<open>s\<close>: its bytes.\<close>

definition bytes_of :: "string \<Rightarrow> byte list" where
  "bytes_of s = map (\<lambda>c. of_nat (of_char c)) s"

subsection \<open>The varint codec (writers.go)\<close>

text \<open>\<^verbatim>\<open>byte(v)\<close>: the conversion keeps the low eight bits.\<close>

definition byte_of :: "uint64 \<Rightarrow> byte" where
  "byte_of v = ucast v"

text \<open>The bytes that one \<^verbatim>\<open>append\<close> call of \<^verbatim>\<open>appendVarint\<close> adds, case by case.\<close>

definition varint_bytes :: "uint64 \<Rightarrow> byte list" where
  "varint_bytes v =
    (if v < 0x80 then [byte_of v]
     else if v < push_bit 14 1 then [byte_of (v OR 0x80), byte_of (drop_bit 7 v)]
     else if v < push_bit 21 1 then
       [byte_of (v OR 0x80), byte_of (drop_bit 7 v OR 0x80), byte_of (drop_bit 14 v)]
     else if v < push_bit 28 1 then
       [byte_of (v OR 0x80), byte_of (drop_bit 7 v OR 0x80), byte_of (drop_bit 14 v OR 0x80),
        byte_of (drop_bit 21 v)]
     else if v < push_bit 35 1 then
       [byte_of (v OR 0x80), byte_of (drop_bit 7 v OR 0x80), byte_of (drop_bit 14 v OR 0x80),
        byte_of (drop_bit 21 v OR 0x80), byte_of (drop_bit 28 v)]
     else if v < push_bit 42 1 then
       [byte_of (v OR 0x80), byte_of (drop_bit 7 v OR 0x80), byte_of (drop_bit 14 v OR 0x80),
        byte_of (drop_bit 21 v OR 0x80), byte_of (drop_bit 28 v OR 0x80), byte_of (drop_bit 35 v)]
     else if v < push_bit 49 1 then
       [byte_of (v OR 0x80), byte_of (drop_bit 7 v OR 0x80), byte_of (drop_bit 14 v OR 0x80),
        byte_of (drop_bit 21 v OR 0x80), byte_of (drop_bit 28 v OR 0x80),
        byte_of (drop_bit 35 v OR 0x80), byte_of (drop_bit 42 v)]
     else if v < push_bit 56 1 then
       [byte_of (v OR 0x80), byte_of (drop_bit 7 v OR 0x80), byte_of (drop_bit 14 v OR 0x80),
        byte_of (drop_bit 21 v OR 0x80), byte_of (drop_bit 28 v OR 0x80),
        byte_of (drop_bit 35 v OR 0x80), byte_of (drop_bit 42 v OR 0x80), byte_of (drop_bit 49 v)]
     else if v < push_bit 63 1 then
       [byte_of (v OR 0x80), byte_of (drop_bit 7 v OR 0x80), byte_of (drop_bit 14 v OR 0x80),
        byte_of (drop_bit 21 v OR 0x80), byte_of (drop_bit 28 v OR 0x80),
        byte_of (drop_bit 35 v OR 0x80), byte_of (drop_bit 42 v OR 0x80),
        byte_of (drop_bit 49 v OR 0x80), byte_of (drop_bit 56 v)]
     else
       [byte_of (v OR 0x80), byte_of (drop_bit 7 v OR 0x80), byte_of (drop_bit 14 v OR 0x80),
        byte_of (drop_bit 21 v OR 0x80), byte_of (drop_bit 28 v OR 0x80),
        byte_of (drop_bit 35 v OR 0x80), byte_of (drop_bit 42 v OR 0x80),
        byte_of (drop_bit 49 v OR 0x80), byte_of (drop_bit 56 v), byte_of (drop_bit 63 v)])"

definition appendVarint :: "slice \<Rightarrow> uint64 \<Rightarrow> slice" where
  "appendVarint b v = append_s b (varint_bytes v)"

definition appendTagVarint :: "slice \<Rightarrow> byte \<Rightarrow> uint64 \<Rightarrow> slice" where
  "appendTagVarint b t v = append_s b (t # varint_bytes v)"

definition varintSize :: "uint64 \<Rightarrow> nat" where
  "varintSize v =
    (if v < 0x80 then 1
     else if v < push_bit 14 1 then 2
     else if v < push_bit 21 1 then 3
     else if v < push_bit 28 1 then 4
     else if v < push_bit 35 1 then 5
     else if v < push_bit 42 1 then 6
     else if v < push_bit 49 1 then 7
     else if v < push_bit 56 1 then 8
     else if v < push_bit 63 1 then 9
     else 10)"

text \<open>
  The standard protobuf scheme, as the specification words it: seven bits per byte,
  least significant group first, the top bit set on every byte but the last.
\<close>

function std_varint :: "uint64 \<Rightarrow> byte list" where
  "std_varint v = (if v < 0x80 then [ucast v]
     else (ucast (v AND 0x7F) OR 0x80) # std_varint (drop_bit 7 v))"
  by pat_completeness auto
termination
proof (relation "measure unat")
  show "wf (measure unat)" by simp
next
  fix v :: uint64
  assume "\<not> v < 0x80"
  then have "128 \<le> unat v" by (simp add: word_less_nat_alt)
  then have "unat v div 128 < unat v" by simp
  then show "(drop_bit 7 v, v) \<in> measure unat"
    by (simp add: unat_drop_bit_eq drop_bit_nat_def)
qed

text \<open>Standard varint decoding: the value and the bytes left over.\<close>

fun decode_varint :: "byte list \<Rightarrow> (uint64 \<times> byte list) option" where
  "decode_varint [] = None"
| "decode_varint (b # bs) =
    (if b < 0x80 then Some (ucast b, bs)
     else case decode_varint bs of
            None \<Rightarrow> None
          | Some (r, rest) \<Rightarrow> Some (ucast (b AND 0x7F) OR push_bit 7 r, rest))"

subsection \<open>Identifiers, locations and the collaborators outside the sources\<close>

text \<open>
  \<^verbatim>\<open>ID\<close> is a 16-byte array; it is kept as a 128-bit word whose most significant byte
  is \<^verbatim>\<open>id[0]\<close>, so \<^verbatim>\<open>len(id)\<close> is 16 by construction and \<^verbatim>\<open>ID{}\<close> is 0.
  \<^verbatim>\<open>Location\<close> is a \<^verbatim>\<open>uintptr\<close>.
\<close>

type_synonym ID = "128 word"
type_synonym Location = "64 word"

definition id_bytes :: "ID \<Rightarrow> byte list" where
  "id_bytes i = map (\<lambda>k. ucast (drop_bit (8 * (15 - k)) i)) [0..<16]"

text \<open>\<^verbatim>\<open>binary.LittleEndian.PutUint64\<close>: the eight bytes written.\<close>

definition PutUint64 :: "uint64 \<Rightarrow> byte list" where
  "PutUint64 v = map (\<lambda>k. ucast (drop_bit (8 * k) v)) [0..<8]"

text \<open>The conversion \<^verbatim>\<open>uint64(n)\<close> of a length or a size.\<close>

definition u64 :: "nat \<Rightarrow> uint64" where
  "u64 n = of_nat n"

subsection \<open>Events\<close>

text \<open>
  A \<^verbatim>\<open>float64\<close> is kept as its IEEE-754 bit pattern (\<^verbatim>\<open>math.Float64bits\<close>); the
  elements of \<^verbatim>\<open>Args []interface{}\<close> are the kinds of value the writers themselves pass.
  \<^verbatim>\<open>Args == nil\<close> is \<open>None\<close>.
\<close>

type_synonym float64 = "64 word"

datatype arg = ArgInt int | ArgString string | ArgFloat float64 | ArgLabels "string list"

record Message =
  msg_Location :: Location
  msg_Time :: int64
  msg_Format :: string
  msg_Args :: "arg list option"

record Metric =
  met_Name :: string
  met_Value :: float64
  met_Labels :: "string list"

text \<open>
  The functions the writers call that are declared outside the sources at hand, and the
  readings of the clock and of the call stack, are the fields of an environment:
  \<^item> \<^verbatim>\<open>Location.NameFileLine\<close> and \<^verbatim>\<open>Location.Entry\<close>, the location resolver;
  \<^item> \<^verbatim>\<open>splitTime\<close>, applied to \<^verbatim>\<open>time.Unix(0, ts)\<close>, in UTC when the flag is set: year,
    month, day, hour, minute, second;
  \<^item> \<^verbatim>\<open>ID.FormatTo(b, verb)\<close>: the bytes it writes from the start of a slice of the
    given length;
  \<^item> \<^verbatim>\<open>AppendPrintf\<close> and \<^verbatim>\<open>appendSafe\<close>: the bytes they append;
  \<^item> \<^verbatim>\<open>strconv.AppendFloat(b, v, fmt, prec, 64)\<close>, and the same applied to
    \<^verbatim>\<open>time.Duration(el).Seconds() * 1000\<close> with \<^verbatim>\<open>'f'\<close> and precision 2;
  \<^item> \<^verbatim>\<open>now()\<close> and the result of \<^verbatim>\<open>ConsoleWriter.caller()\<close>.
\<close>

record env =
  NameFileLine :: "Location \<Rightarrow> string \<times> string \<times> int"
  Entry :: "Location \<Rightarrow> Location"
  splitTime :: "bool \<Rightarrow> int64 \<Rightarrow> int \<times> int \<times> int \<times> int \<times> int \<times> int"
  FormatTo :: "ID \<Rightarrow> nat \<Rightarrow> char \<Rightarrow> byte list"
  AppendPrintf :: "string \<Rightarrow> arg list \<Rightarrow> byte list"
  appendSafe :: "string \<Rightarrow> byte list"
  AppendFloat :: "float64 \<Rightarrow> char \<Rightarrow> int \<Rightarrow> byte list"
  AppendMillis :: "int64 \<Rightarrow> byte list"
  now :: int64
  caller :: Location

text \<open>
  \<^verbatim>\<open>id.FormatTo(s, verb)\<close> on a slice with content \<open>s\<close>: it cannot write past the slice
  or change its length.
\<close>

definition FormatTo_into :: "env \<Rightarrow> ID \<Rightarrow> byte list \<Rightarrow> char \<Rightarrow> byte list" where
  "FormatTo_into e i s verb =
    (let out = take (length s) (FormatTo e i (length s) verb) in out @ drop (length out) s)"

text \<open>\<^verbatim>\<open>strconv.AppendInt(b, i, 10)\<close>: the decimal digits, with a minus sign below zero.\<close>

definition dec_digit :: "nat \<Rightarrow> char" where
  "dec_digit d = ''0123456789'' ! d"

function dec_nat :: "nat \<Rightarrow> string" where
  "dec_nat n = (if n < 10 then [dec_digit n] else dec_nat (n div 10) @ [dec_digit (n mod 10)])"
  by pat_completeness auto
termination
  by (relation "measure (\<lambda>n. n)") auto

definition AppendInt :: "byte list \<Rightarrow> int \<Rightarrow> byte list" where
  "AppendInt b i = b @ bytes_of (if i < 0 then ''-'' @ dec_nat (nat (- i)) else dec_nat (nat i))"

subsection \<open>JSONWriter (writers.go)\<close>

text \<open>
  The JSON encoder only appends to its buffer and cuts it back to length zero, so the
  buffer is its visible content.
\<close>

record JSONWriter =
  jw_w :: "byte list list"
  jw_ls :: "Location set"
  jw_buf :: "byte list"

definition NewJSONWriter :: JSONWriter where
  "NewJSONWriter = \<lparr>jw_w = [], jw_ls = {}, jw_buf = []\<rparr>"

text \<open>The span-id member: the key, the 32-character placeholder with what follows it, and \<^verbatim>\<open>FormatTo\<close> over that region.\<close>

definition json_id :: "env \<Rightarrow> byte list \<Rightarrow> string \<Rightarrow> string \<Rightarrow> ID \<Rightarrow> byte list" where
  \<open>json_id e b key holder i =
    (let b = b @ bytes_of key
     in b @ FormatTo_into e i (bytes_of holder) (CHR ''x''))\<close>

text \<open>The loop over the labels in \<^verbatim>\<open>JSONWriter.Labels\<close>; \<open>i\<close> is the index.\<close>

fun json_labels :: "env \<Rightarrow> byte list \<Rightarrow> nat \<Rightarrow> string list \<Rightarrow> byte list" where
  \<open>json_labels e b i [] = b\<close>
| \<open>json_labels e b i (l # ls) =
    (let b = (if i = 0 then b @ bytes_of ''"'' else b @ bytes_of '',"'');
         b = b @ appendSafe e l;
         b = b @ bytes_of ''"''
     in json_labels e b (i + 1) ls)\<close>

definition JSONWriter_Labels :: "env \<Rightarrow> JSONWriter \<Rightarrow> string list \<Rightarrow> ID \<Rightarrow> JSONWriter" where
  \<open>JSONWriter_Labels e w ls sid =
    (let b = jw_buf w;
         b = b @ bytes_of ''{"L":{'';
         b = (if sid \<noteq> 0 then json_id e b ''"s":"'' ''123456789_123456789_123456789_12",'' sid else b);
         b = b @ bytes_of ''"L":['';
         b = json_labels e b 0 ls;
         b = b @ bytes_of '']}}'' @ [0x0A]
     in w\<lparr>jw_buf := [], jw_w := jw_w w @ [b]\<rparr>)\<close>

definition JSONWriter_location :: "env \<Rightarrow> JSONWriter \<Rightarrow> Location \<Rightarrow> JSONWriter" where
  \<open>JSONWriter_location e w l =
    (if l = 0 then w
     else
      (let (name, file, line) = NameFileLine e l;
           b = jw_buf w;
           b = b @ bytes_of ''{"l":{"p":'';
           b = AppendInt b (sint l);
           b = b @ bytes_of '',"e":'';
           b = AppendInt b (sint (Entry e l));
           b = b @ bytes_of '',"f":"'';
           b = b @ appendSafe e file;
           b = b @ bytes_of ''","l":'';
           b = AppendInt b line;
           b = b @ bytes_of '',"n":"'';
           b = b @ appendSafe e name;
           b = b @ bytes_of ''"}}'' @ [0x0A]
       in w\<lparr>jw_ls := insert l (jw_ls w), jw_buf := b\<rparr>))\<close>

definition JSONWriter_Message :: "env \<Rightarrow> JSONWriter \<Rightarrow> Message \<Rightarrow> ID \<Rightarrow> JSONWriter" where
  \<open>JSONWriter_Message e w m sid =
    (let w = (if msg_Location m \<notin> jw_ls w then JSONWriter_location e w (msg_Location m) else w);
         b = jw_buf w;
         b = b @ bytes_of ''{"m":{'';
         b = (if sid \<noteq> 0 then json_id e b ''"s":"'' ''123456789_123456789_123456789_12",'' sid else b);
         b = b @ bytes_of ''"t":'';
         b = AppendInt b (sint (msg_Time m));
         b = (if msg_Location m \<noteq> 0
              then AppendInt (b @ bytes_of '',"l":'') (sint (msg_Location m)) else b);
         b = b @ bytes_of '',"m":"'';
         b = (case msg_Args m of
                Some args \<Rightarrow> b @ AppendPrintf e (msg_Format m) args
              | None \<Rightarrow> b @ bytes_of (msg_Format m));
         b = b @ bytes_of ''"}}'' @ [0x0A]
     in w\<lparr>jw_buf := [], jw_w := jw_w w @ [b]\<rparr>)\<close>

text \<open>The loop over the labels in \<^verbatim>\<open>JSONWriter.Metric\<close>.\<close>

fun json_metric_labels :: "env \<Rightarrow> byte list \<Rightarrow> nat \<Rightarrow> string list \<Rightarrow> byte list" where
  \<open>json_metric_labels e b i [] = b\<close>
| \<open>json_metric_labels e b i (l # ls) =
    (let b = (if i \<noteq> 0 then b @ bytes_of '','' else b);
         b = b @ bytes_of ''"'';
         b = b @ appendSafe e l;
         b = b @ bytes_of ''"''
     in json_metric_labels e b (i + 1) ls)\<close>

definition JSONWriter_Metric :: "env \<Rightarrow> JSONWriter \<Rightarrow> Metric \<Rightarrow> ID \<Rightarrow> JSONWriter" where
  \<open>JSONWriter_Metric e w m sid =
    (let b = jw_buf w;
         b = b @ bytes_of ''{"v":{'';
         b = (if sid \<noteq> 0 then json_id e b ''"s":"'' ''123456789_123456789_123456789_12",'' sid else b);
         b = b @ bytes_of ''"n":"'';
         b = b @ appendSafe e (met_Name m);
         b = b @ bytes_of ''","v":'';
         b = b @ AppendFloat e (met_Value m) (CHR ''g'') (- 1);
         b = (if length (met_Labels m) \<noteq> 0
              then json_metric_labels e (b @ bytes_of '',"L":['') 0 (met_Labels m) @ bytes_of '']''
              else b);
         b = b @ bytes_of ''}}'' @ [0x0A]
     in w\<lparr>jw_buf := [], jw_w := jw_w w @ [b]\<rparr>)\<close>

definition JSONWriter_SpanStarted :: "env \<Rightarrow> JSONWriter \<Rightarrow> ID \<Rightarrow> ID \<Rightarrow> int64 \<Rightarrow> Location \<Rightarrow> JSONWriter" where
  \<open>JSONWriter_SpanStarted e w sid par st loc =
    (let w = (if loc \<notin> jw_ls w then JSONWriter_location e w loc else w);
         b = jw_buf w;
         b = json_id e b ''{"s":{"i":"'' ''123456789_123456789_123456789_12"'' sid;
         b = b @ bytes_of '',"s":'';
         b = AppendInt b (sint st);
         b = b @ bytes_of '',"l":'';
         b = AppendInt b (sint loc);
         b = (if par \<noteq> 0 then json_id e b '',"p":"'' ''123456789_123456789_123456789_12"'' par else b);
         b = b @ bytes_of ''}}'' @ [0x0A]
     in w\<lparr>jw_buf := [], jw_w := jw_w w @ [b]\<rparr>)\<close>

definition JSONWriter_SpanFinished :: "env \<Rightarrow> JSONWriter \<Rightarrow> ID \<Rightarrow> int64 \<Rightarrow> JSONWriter" where
  \<open>JSONWriter_SpanFinished e w sid el =
    (let b = jw_buf w;
         b = json_id e b ''{"f":{"i":"'' ''123456789_123456789_123456789_12"'' sid;
         b = b @ bytes_of '',"e":'';
         b = AppendInt b (sint el);
         b = b @ bytes_of ''}}'' @ [0x0A]
     in w\<lparr>jw_buf := [], jw_w := jw_w w @ [b]\<rparr>)\<close>

subsection \<open>ProtoWriter (writers.go)\<close>

text \<open>
  The \<^verbatim>\<open>io.Writer\<close> behind an encoder is the list of the payloads handed to its
  \<^verbatim>\<open>Write\<close>, one entry per call, oldest first. The error \<^verbatim>\<open>Write\<close> returns is
  passed on to the caller and changes nothing in the encoder.
\<close>

record ProtoWriter =
  pw_w :: "byte list list"
  pw_ls :: "Location set"
  pw_buf :: slice

definition NewProtoWriter :: ProtoWriter where
  "NewProtoWriter = \<lparr>pw_w = [], pw_ls = {}, pw_buf = ([], [])\<rparr>"

text \<open>
  \<^verbatim>\<open>appendTagVarint\<close> repeats the ten cases of \<^verbatim>\<open>appendVarint\<close> with the tag byte put
  first in each \<^verbatim>\<open>append\<close>; the tags below are written as in the source, field number
  shifted by three, or-ed with the wire type.
\<close>

definition ProtoWriter_SpanFinished :: "ProtoWriter \<Rightarrow> ID \<Rightarrow> int64 \<Rightarrow> ProtoWriter" where
  "ProtoWriter_SpanFinished pw sid el =
    (let sz = 0;
         sz = sz + (1 + varintSize (u64 (length (id_bytes sid))) + length (id_bytes sid));
         sz = sz + (1 + varintSize el);
         b = pw_buf pw;
         szs = varintSize (u64 sz);
         b = appendVarint b (u64 (1 + szs + sz));
         b = appendTagVarint b (push_bit 3 5 OR 2) (u64 sz);
         b = appendTagVarint b (push_bit 3 1 OR 2) (u64 (length (id_bytes sid)));
         b = append_s b (id_bytes sid);
         b = appendTagVarint b (push_bit 3 2 OR 0) el
     in pw\<lparr>pw_buf := reslice0 b, pw_w := pw_w pw @ [fst b]\<rparr>)"

text \<open>
  A fixed64 field: \<^verbatim>\<open>b = append(b, tag, 0, 0, 0, 0, 0, 0, 0, 0)\<close> followed by
  \<^verbatim>\<open>binary.LittleEndian.PutUint64(b[len(b)-8:], v)\<close>.
\<close>

definition append_fixed64 :: "slice \<Rightarrow> byte \<Rightarrow> uint64 \<Rightarrow> slice" where
  "append_fixed64 b t v =
    (let b = append_s b (t # replicate 8 0)
     in (copy_at (fst b) (length (fst b) - 8) (PutUint64 v), snd b))"

text \<open>The sizes and the fields of the labels, one length-delimited field each.\<close>

definition proto_labels_size :: "nat \<Rightarrow> string list \<Rightarrow> nat" where
  "proto_labels_size sz ls = foldl (\<lambda>sz l. sz + (1 + varintSize (u64 (length l)) + length l)) sz ls"

definition proto_labels :: "slice \<Rightarrow> byte \<Rightarrow> string list \<Rightarrow> slice" where
  "proto_labels b t ls =
     foldl (\<lambda>b l. append_s (appendTagVarint b t (u64 (length l))) (bytes_of l)) b ls"

definition ProtoWriter_Labels :: "ProtoWriter \<Rightarrow> string list \<Rightarrow> ID \<Rightarrow> ProtoWriter" where
  "ProtoWriter_Labels pw ls sid =
    (let sz = 0;
         sz = (if sid \<noteq> 0
               then sz + (1 + varintSize (u64 (length (id_bytes sid))) + length (id_bytes sid))
               else sz);
         sz = proto_labels_size sz ls;
         szs = varintSize (u64 sz);
         b = pw_buf pw;
         b = appendVarint b (u64 (1 + szs + sz));
         b = appendTagVarint b (push_bit 3 1 OR 2) (u64 sz);
         b = (if sid \<noteq> 0
              then append_s (appendTagVarint b (push_bit 3 1 OR 2) (u64 (length (id_bytes sid))))
                     (id_bytes sid)
              else b);
         b = proto_labels b (push_bit 3 2 OR 2) ls
     in pw\<lparr>pw_buf := reslice0 b, pw_w := pw_w pw @ [fst b]\<rparr>)"

text \<open>
  \<^verbatim>\<open>ProtoWriter.location\<close> starts from \<^verbatim>\<open>w.buf[:0]\<close> and leaves the record in \<^verbatim>\<open>w.buf\<close>.
\<close>

definition ProtoWriter_location :: "env \<Rightarrow> ProtoWriter \<Rightarrow> Location \<Rightarrow> ProtoWriter" where
  "ProtoWriter_location e pw l =
    (if l = 0 then pw
     else
      (let (name, file, line) = NameFileLine e l;
           b = reslice0 (pw_buf pw);
           sz = 0;
           sz = sz + (1 + varintSize l);
           sz = sz + (1 + varintSize (Entry e l));
           sz = sz + (1 + varintSize (u64 (length name)) + length name);
           sz = sz + (1 + varintSize (u64 (length file)) + length file);
           sz = sz + (1 + varintSize (of_int line));
           b = appendVarint b (u64 (1 + varintSize (u64 sz) + sz));
           b = appendTagVarint b (push_bit 3 2 OR 2) (u64 sz);
           b = appendTagVarint b (push_bit 3 1 OR 0) l;
           b = appendTagVarint b (push_bit 3 2 OR 0) (Entry e l);
           b = appendTagVarint b (push_bit 3 3 OR 2) (u64 (length name));
           b = append_s b (bytes_of name);
           b = appendTagVarint b (push_bit 3 4 OR 2) (u64 (length file));
           b = append_s b (bytes_of file);
           b = appendTagVarint b (push_bit 3 5 OR 0) (of_int line)
       in pw\<lparr>pw_ls := insert l (pw_ls pw), pw_buf := b\<rparr>))"

text \<open>
  The loop \<^verbatim>\<open>for cap(b) < st+total { b = append(b, 0, 0, 0, 0, 0, 0, 0, 0, 0, 0) }\<close>.
\<close>

function grow_cap :: "slice \<Rightarrow> nat \<Rightarrow> slice" where
  "grow_cap b need = (if cap_s b < need then grow_cap (append_s b (replicate 10 0)) need else b)"
  by pat_completeness auto
termination
proof (relation "measures [\<lambda>(b, need). need - cap_s b, \<lambda>(b, need). length (snd b)]")
  show "wf (measures [\<lambda>(b, need). need - cap_s b, \<lambda>(b, need). length (snd b)])" by simp
next
  fix b :: slice and need :: nat
  assume less: "cap_s b < need"
  show "((append_s b (replicate 10 0), need), (b, need))
         \<in> measures [\<lambda>(b, need). need - cap_s b, \<lambda>(b, need). length (snd b)]"
  proof (cases "length (snd b) < 10")
    case True
    then have "cap_s b < cap_s (append_s b (replicate 10 0))"
      by (simp add: cap_s_def append_s_def)
    with less have "need - cap_s (append_s b (replicate 10 0)) < need - cap_s b"
      by arith
    then show ?thesis by simp
  next
    case False
    then have "cap_s (append_s b (replicate 10 0)) = cap_s b"
      and "length (snd (append_s b (replicate 10 0))) < length (snd b)"
      by (simp_all add: cap_s_def append_s_def)
    then show ?thesis by simp
  qed
qed

text \<open>
  \<^verbatim>\<open>ProtoWriter.Message\<close>: the text is written first, the frame header and the fields are
  then written in front of it over the same array, after the text has been moved to
  the end of the frame. The three stretches of the function are named: the size of the
  sub-message, the relocation of the text (the capacity loop, \<^verbatim>\<open>b = b[:st+total]\<close>,
  \<^verbatim>\<open>copy(b[st+total-l:], b[st:st+l])\<close> and \<^verbatim>\<open>b[:st]\<close>), and the appends of the header.
\<close>

definition message_sz :: "ID \<Rightarrow> Message \<Rightarrow> nat \<Rightarrow> nat" where
  "message_sz sid m l =
    (let sz = 0;
         sz = (if sid \<noteq> 0
               then sz + (1 + varintSize (u64 (length (id_bytes sid))) + length (id_bytes sid))
               else sz);
         sz = (if msg_Location m \<noteq> 0 then sz + (1 + varintSize (msg_Location m)) else sz);
         sz = sz + (1 + 8);
         sz = sz + (1 + varintSize (u64 l) + l)
     in sz)"

definition relocate_text :: "slice \<Rightarrow> nat \<Rightarrow> nat \<Rightarrow> nat \<Rightarrow> panic + slice" where
  "relocate_text b st tot l =
    (let b = grow_cap b (st + tot)
     in case reslice b (st + tot) of
          Inl err \<Rightarrow> Inl err
        | Inr b \<Rightarrow>
           (let b = (copy_at (fst b) (st + tot - l) (take l (drop st (fst b))), snd b)
            in reslice b st))"

definition message_header :: "slice \<Rightarrow> ID \<Rightarrow> Message \<Rightarrow> nat \<Rightarrow> nat \<Rightarrow> nat \<Rightarrow> slice" where
  "message_header b sid m sz szs l =
    (let b = appendVarint b (u64 (1 + szs + sz));
         b = appendTagVarint b (push_bit 3 3 OR 2) (u64 sz);
         b = (if sid \<noteq> 0
              then append_s (appendTagVarint b (push_bit 3 1 OR 2) (u64 (length (id_bytes sid))))
                     (id_bytes sid)
              else b);
         b = (if msg_Location m \<noteq> 0
              then appendTagVarint b (push_bit 3 2 OR 0) (msg_Location m) else b);
         b = append_fixed64 b (push_bit 3 3 OR 1) (msg_Time m);
         b = appendTagVarint b (push_bit 3 4 OR 2) (u64 l)
     in b)"

definition ProtoWriter_Message :: "env \<Rightarrow> ProtoWriter \<Rightarrow> Message \<Rightarrow> ID \<Rightarrow> panic + ProtoWriter" where
  "ProtoWriter_Message e pw m sid =
    (let pw = (if msg_Location m \<notin> pw_ls pw then ProtoWriter_location e pw (msg_Location m) else pw);
         b = pw_buf pw;
         st = length (fst b);
         b = (case msg_Args m of
                Some args \<Rightarrow> append_s b (AppendPrintf e (msg_Format m) args)
              | None \<Rightarrow> append_s b (bytes_of (msg_Format m)));
         l = length (fst b) - st;
         sz = message_sz sid m l;
         szs = varintSize (u64 sz);
         szss = varintSize (u64 (1 + szs + sz));
         total = szss + 1 + szs + sz
     in case relocate_text b st total l of
          Inl err \<Rightarrow> Inl err
        | Inr b \<Rightarrow>
           (let b = message_header b sid m sz szs l
            in case reslice b (st + total) of
                 Inl err \<Rightarrow> Inl err
               | Inr b \<Rightarrow> Inr (pw\<lparr>pw_buf := reslice0 b, pw_w := pw_w pw @ [fst b]\<rparr>)))"

definition ProtoWriter_Metric :: "ProtoWriter \<Rightarrow> Metric \<Rightarrow> ID \<Rightarrow> ProtoWriter" where
  "ProtoWriter_Metric pw m sid =
    (let sz = 0;
         sz = (if sid \<noteq> 0
               then sz + (1 + varintSize (u64 (length (id_bytes sid))) + length (id_bytes sid))
               else sz);
         sz = sz + (1 + varintSize (u64 (length (met_Name m))) + length (met_Name m));
         sz = sz + (1 + 8);
         sz = proto_labels_size sz (met_Labels m);
         b = pw_buf pw;
         szs = varintSize (u64 sz);
         b = appendVarint b (u64 (1 + szs + sz));
         b = appendTagVarint b (push_bit 3 6 OR 2) (u64 sz);
         b = (if sid \<noteq> 0
              then append_s (appendTagVarint b (push_bit 3 1 OR 2) (u64 (length (id_bytes sid))))
                     (id_bytes sid)
              else b);
         b = appendTagVarint b (push_bit 3 2 OR 2) (u64 (length (met_Name m)));
         b = append_s b (bytes_of (met_Name m));
         b = append_fixed64 b (push_bit 3 3 OR 1) (met_Value m);
         b = proto_labels b (push_bit 3 4 OR 2) (met_Labels m)
     in pw\<lparr>pw_buf := reslice0 b, pw_w := pw_w pw @ [fst b]\<rparr>)"

definition ProtoWriter_SpanStarted :: "env \<Rightarrow> ProtoWriter \<Rightarrow> ID \<Rightarrow> ID \<Rightarrow> int64 \<Rightarrow> Location
    \<Rightarrow> ProtoWriter" where
  "ProtoWriter_SpanStarted e pw sid par st loc =
    (let pw = (if loc \<notin> pw_ls pw then ProtoWriter_location e pw loc else pw);
         sz = 0;
         sz = sz + (1 + varintSize (u64 (length (id_bytes sid))) + length (id_bytes sid));
         sz = (if par \<noteq> 0
               then sz + (1 + varintSize (u64 (length (id_bytes par))) + length (id_bytes par))
               else sz);
         sz = (if loc \<noteq> 0 then sz + (1 + varintSize loc) else sz);
         sz = sz + (1 + 8);
         b = pw_buf pw;
         szs = varintSize (u64 sz);
         b = appendVarint b (u64 (1 + szs + sz));
         b = appendTagVarint b (push_bit 3 4 OR 2) (u64 sz);
         b = appendTagVarint b (push_bit 3 1 OR 2) (u64 (length (id_bytes sid)));
         b = append_s b (id_bytes sid);
         b = (if par \<noteq> 0
              then append_s (appendTagVarint b (push_bit 3 2 OR 2) (u64 (length (id_bytes par))))
                     (id_bytes par)
              else b);
         b = (if loc \<noteq> 0 then appendTagVarint b (push_bit 3 3 OR 0) loc else b);
         b = append_fixed64 b (push_bit 3 4 OR 1) st
     in pw\<lparr>pw_buf := reslice0 b, pw_w := pw_w pw @ [fst b]\<rparr>)"

subsection \<open>ConsoleWriter (writers.go)\<close>

text \<open>
  The flag constants are those of the package's const block, \<^verbatim>\<open>1 << iota\<close> from
  \<^verbatim>\<open>Ldate\<close> on.
\<close>

definition Ldate :: int where "Ldate = push_bit 0 1"
definition Ltime :: int where "Ltime = push_bit 1 1"
definition Lmilliseconds :: int where "Lmilliseconds = push_bit 2 1"
definition Lmicroseconds :: int where "Lmicroseconds = push_bit 3 1"
definition Lshortfile :: int where "Lshortfile = push_bit 4 1"
definition Llongfile :: int where "Llongfile = push_bit 5 1"
definition Ltypefunc :: int where "Ltypefunc = push_bit 6 1"
definition Lfuncname :: int where "Lfuncname = push_bit 7 1"
definition LUTC :: int where "LUTC = push_bit 8 1"
definition Lspans :: int where "Lspans = push_bit 9 1"
definition Lmessagespan :: int where "Lmessagespan = push_bit 10 1"

record ConsoleWriter =
  cw_w :: "byte list list"
  cw_f :: int
  cw_Shortfile :: int
  cw_Funcname :: int
  cw_IDWidth :: int
  cw_buf :: "byte list"

definition NewConsoleWriter :: "int \<Rightarrow> ConsoleWriter" where
  "NewConsoleWriter fl =
     \<lparr>cw_w = [], cw_f = fl, cw_Shortfile = 20, cw_Funcname = 18, cw_IDWidth = 16, cw_buf = []\<rparr>"

definition spaces :: string where
  "spaces = replicate 144 (CHR '' '')"

text \<open>Go's \<^verbatim>\<open>/\<close> and \<^verbatim>\<open>%\<close> on integers round towards zero.\<close>

definition quot :: "int \<Rightarrow> int \<Rightarrow> int" where
  "quot a b = sgn a * sgn b * (\<bar>a\<bar> div \<bar>b\<bar>)"

definition rem :: "int \<Rightarrow> int \<Rightarrow> int" where
  "rem a b = a - b * quot a b"

text \<open>\<^verbatim>\<open>byte(x%10) + '0'\<close> and \<^verbatim>\<open>byte(x) + '0'\<close>.\<close>

definition digit_byte :: "int \<Rightarrow> byte" where
  "digit_byte x = of_int (rem x 10) + 0x30"

definition plain_byte :: "int \<Rightarrow> byte" where
  "plain_byte x = of_int x + 0x30"

text \<open>\<^verbatim>\<open>s[:n]\<close> and \<^verbatim>\<open>s[n:]\<close> on a string, with the bounds check.\<close>

definition str_to :: "string \<Rightarrow> int \<Rightarrow> panic + string" where
  "str_to s n = (if 0 \<le> n \<and> n \<le> int (length s) then Inr (take (nat n) s) else Inl SliceBoundsOutOfRange)"

definition str_from :: "string \<Rightarrow> int \<Rightarrow> panic + string" where
  "str_from s n = (if 0 \<le> n \<and> n \<le> int (length s) then Inr (drop (nat n) s) else Inl SliceBoundsOutOfRange)"

text \<open>\<^verbatim>\<open>strings.Index\<close> and \<^verbatim>\<open>strings.IndexByte\<close>: \<open>-1\<close> when there is no occurrence.\<close>

fun Index :: "string \<Rightarrow> string \<Rightarrow> int" where
  "Index [] sub = (if sub = [] then 0 else - 1)"
| "Index (c # cs) sub =
    (if prefix sub (c # cs) then 0
     else let r = Index cs sub in if r = - 1 then - 1 else r + 1)"

definition IndexByte :: "string \<Rightarrow> char \<Rightarrow> int" where
  "IndexByte s c = Index s [c]"

text \<open>
  \<^verbatim>\<open>filepath.Base\<close> with \<^verbatim>\<open>/\<close> as the separator: the last element of the path, the
  trailing separators removed first; \<^verbatim>\<open>.\<close> for the empty path, \<^verbatim>\<open>/\<close> for one made of
  separators.
\<close>

definition Base :: "string \<Rightarrow> string" where
  "Base path =
    (if path = [] then ''.''
     else let path = rev (dropWhile (\<lambda>c. c = CHR ''/'') (rev path));
              path = rev (takeWhile (\<lambda>c. c \<noteq> CHR ''/'') (rev path))
          in if path = [] then ''/'' else path)"

text \<open>The loop \<^verbatim>\<open>for j := 0; j < 4; j++ { b[i+3-j] = byte(Y%10) + '0'; Y /= 10 }\<close>, \<open>k\<close> steps left.\<close>

fun year_digits :: "byte list \<Rightarrow> nat \<Rightarrow> int \<Rightarrow> nat \<Rightarrow> byte list" where
  "year_digits b i Y 0 = b"
| "year_digits b i Y (Suc k) = year_digits (b[i + k := digit_byte Y]) i (quot Y 10) k"

text \<open>The count of the loop \<^verbatim>\<open>for q := line; q != 0; q /= 10 { n++ }\<close>.\<close>

function ndigits :: "int \<Rightarrow> nat" where
  "ndigits q = (if q \<noteq> 0 then Suc (ndigits (quot q 10)) else 0)"
  by pat_completeness auto
termination
proof (relation "measure (\<lambda>q. nat \<bar>q\<bar>)")
  show "wf (measure (\<lambda>q. nat \<bar>q\<bar>))" by simp
next
  fix q :: int
  assume nz: "q \<noteq> 0"
  then have "\<bar>q\<bar> div 10 < \<bar>q\<bar>" by simp
  moreover have "\<bar>quot q 10\<bar> = \<bar>q\<bar> div 10"
    using nz by (simp add: quot_def abs_mult)
  ultimately show "(quot q 10, q) \<in> measure (\<lambda>q. nat \<bar>q\<bar>)" by simp
qed

text \<open>
  The loop \<^verbatim>\<open>for q, j := line, n-1; j >= 1; j-- { b[i+j] = byte(q%10) + '0'; q /= 10 }\<close>.
\<close>

fun line_digits :: "byte list \<Rightarrow> int \<Rightarrow> int \<Rightarrow> nat \<Rightarrow> panic + byte list" where
  "line_digits b i q 0 = Inr b"
| "line_digits b i q (Suc k) =
    (case store_s b (i + int (Suc k)) (digit_byte q) of
       Inl e \<Rightarrow> Inl e
     | Inr b \<Rightarrow> line_digits b i (quot q 10) k)"

text \<open>
  The loop that copies the trailing digits of a function name over the end of its
  column: \<^verbatim>\<open>for { q := fname[l-j]; if q < '0' || '9' < q { break }; b[len(b)-j] = q; j++ }\<close>.
\<close>

function funcname_digits :: "byte list \<Rightarrow> string \<Rightarrow> int \<Rightarrow> panic + byte list" where
  "funcname_digits b fname j =
    (case index_s fname (int (length fname) - j) of
       Inl e \<Rightarrow> Inl e
     | Inr q \<Rightarrow>
        (if (of_char q :: nat) < 0x30 \<or> 0x39 < (of_char q :: nat) then Inr b
         else case store_s b (int (length b) - j) (of_nat (of_char q)) of
                Inl e \<Rightarrow> Inl e
              | Inr b \<Rightarrow> funcname_digits b fname (j + 1)))"
  by pat_completeness auto
termination
proof (relation "measure (\<lambda>(b, fname, j). nat (int (length fname) - j + 1))")
  show "wf (measure (\<lambda>(b, fname, j). nat (int (length fname) - j + 1)))" by simp
next
  fix b :: "byte list" and fname :: string and j :: int and q :: char and b' :: "byte list"
  assume "index_s fname (int (length fname) - j) = Inr q"
  then have "0 \<le> int (length fname) - j"
    by (simp add: index_s_def split: if_splits)
  then show "((b', fname, j + 1), (b, fname, j))
      \<in> measure (\<lambda>(b, fname, j). nat (int (length fname) - j + 1))"
    by simp
qed

text \<open>The date, time and fraction columns of \<^verbatim>\<open>buildHeader\<close>.\<close>

definition header_time :: "env \<Rightarrow> int \<Rightarrow> int64 \<Rightarrow> byte list \<Rightarrow> byte list" where
  "header_time e fl ts b =
    (if fl AND (Ldate OR Ltime OR Lmilliseconds OR Lmicroseconds) \<noteq> 0 then
       (let utc = (fl AND LUTC \<noteq> 0);
            (Y, M, D, h, m, s) =
               (if fl AND (Ldate OR Ltime) \<noteq> 0 then splitTime e utc ts else (0, 0, 0, 0, 0, 0));
            b = (if fl AND Ldate \<noteq> 0 then
                   (let i = length b;
                        b = b @ bytes_of ''0000/00/00'';
                        b = year_digits b i Y 4;
                        b = b[i + 6 := digit_byte M];
                        b = b[i + 5 := plain_byte (quot M 10)];
                        b = b[i + 9 := digit_byte D];
                        b = b[i + 8 := plain_byte (quot D 10)]
                    in b)
                 else b);
            b = (if fl AND Ltime \<noteq> 0 then
                   (let b = (if length b \<noteq> 0 then b @ bytes_of ''_'' else b);
                        i = length b;
                        b = b @ bytes_of ''00:00:00'';
                        b = b[i + 1 := digit_byte h];
                        b = b[i + 0 := plain_byte (quot h 10)];
                        b = b[i + 4 := digit_byte m];
                        b = b[i + 3 := plain_byte (quot m 10)];
                        b = b[i + 7 := digit_byte s];
                        b = b[i + 6 := plain_byte (quot s 10)]
                    in b)
                 else b);
            b = (if fl AND (Lmilliseconds OR Lmicroseconds) \<noteq> 0 then
                   (let b = (if length b \<noteq> 0 then b @ bytes_of ''.'' else b);
                        ns = quot (sint ts mod 1000000000) 1000
                    in if fl AND Lmilliseconds \<noteq> 0 then
                         (let ns = quot ns 1000;
                              i = length b;
                              b = b @ bytes_of ''000'';
                              b = b[i + 2 := digit_byte ns];
                              ns = quot ns 10;
                              b = b[i + 1 := digit_byte ns];
                              ns = quot ns 10;
                              b = b[i + 0 := digit_byte ns]
                          in b)
                       else
                         (let i = length b;
                              b = b @ bytes_of ''000000'';
                              b = b[i + 5 := digit_byte ns];
                              ns = quot ns 10;
                              b = b[i + 4 := digit_byte ns];
                              ns = quot ns 10;
                              b = b[i + 3 := digit_byte ns];
                              ns = quot ns 10;
                              b = b[i + 2 := digit_byte ns];
                              ns = quot ns 10;
                              b = b[i + 1 := digit_byte ns];
                              ns = quot ns 10;
                              b = b[i + 0 := digit_byte ns]
                          in b))
                 else b)
        in b @ bytes_of ''  '')
     else b)"

text \<open>
  The file column. The column is first filled with \<^verbatim>\<open>spaces[:w.Shortfile]\<close>, the base
  name is written over it from its start, and the slice is cut to the column; the colon
  and the line number go right behind the name, or to the end of the column when both
  do not fit.
\<close>

definition header_file :: "ConsoleWriter \<Rightarrow> string \<Rightarrow> int \<Rightarrow> byte list \<Rightarrow> panic + byte list" where
  "header_file w file line b =
    (if cw_f w AND Lshortfile \<noteq> 0 then
       (let file = Base file;
            n = 1 + int (ndigits line);
            i = int (length b)
        in case str_to spaces (cw_Shortfile w) of
             Inl e \<Rightarrow> Inl e
           | Inr pad \<Rightarrow>
              (let b = b @ take (nat (cw_Shortfile w))
                             (bytes_of file @ bytes_of (drop (length file) pad));
                   e = i + int (length file);
                   i = (if int (length file) + n > cw_Shortfile w then i + cw_Shortfile w - n else e)
               in case store_s b i (of_nat (of_char (CHR '':''))) of
                    Inl e \<Rightarrow> Inl e
                  | Inr b \<Rightarrow>
                     (case line_digits b i line (nat (n - 1)) of
                        Inl e \<Rightarrow> Inl e
                      | Inr b \<Rightarrow> Inr (b @ bytes_of ''  ''))))
     else
       (let b = b @ bytes_of file;
            i = int (length b);
            b = b @ bytes_of '':           '';
            n = 1 + int (ndigits line)
        in case line_digits b i line (nat (n - 1)) of
             Inl e \<Rightarrow> Inl e
           | Inr b \<Rightarrow> Inr (b @ bytes_of ''  '')))"

text \<open>The function column.\<close>

definition header_func :: "ConsoleWriter \<Rightarrow> string \<Rightarrow> byte list \<Rightarrow> panic + byte list" where
  "header_func w fname b =
    (let fname = Base fname
     in if cw_f w AND Lfuncname \<noteq> 0 then
          (let p = Index fname '').'';
               cut = (if p = - 1 then str_from fname (IndexByte fname (CHR ''.'') + 1)
                      else str_from fname (p + 2))
           in case cut of
                Inl e \<Rightarrow> Inl e
              | Inr fname \<Rightarrow>
                 (if int (length fname) \<le> cw_Funcname w then
                    (case str_to spaces (cw_Funcname w) of
                       Inl e \<Rightarrow> Inl e
                     | Inr pad \<Rightarrow>
                        Inr (b @ take (nat (cw_Funcname w))
                                   (bytes_of fname @ bytes_of (drop (length fname) pad))
                               @ bytes_of ''  ''))
                  else
                    (case str_to fname (cw_Funcname w) of
                       Inl e \<Rightarrow> Inl e
                     | Inr head \<Rightarrow>
                        (case funcname_digits (b @ bytes_of head) fname 1 of
                           Inl e \<Rightarrow> Inl e
                         | Inr b \<Rightarrow> Inr (b @ bytes_of ''  '')))))
        else Inr (b @ bytes_of fname @ bytes_of ''  ''))"

text \<open>
  \<^verbatim>\<open>buildHeader\<close>, from \<^verbatim>\<open>b := w.buf[:0]\<close> on. The resolver is asked again for the
  function column only when \<^verbatim>\<open>line\<close> still is \<open>-1\<close>.
\<close>

definition buildHeader :: "env \<Rightarrow> ConsoleWriter \<Rightarrow> Location \<Rightarrow> int64 \<Rightarrow> panic + ConsoleWriter" where
  "buildHeader e w loc ts =
    (let b = [];
         fname = [];
         file = [];
         line = - 1;
         b = header_time e (cw_f w) ts b;
         (fname, file, line) =
            (if cw_f w AND (Llongfile OR Lshortfile) \<noteq> 0 then NameFileLine e loc
             else (fname, file, line));
         r = (if cw_f w AND (Llongfile OR Lshortfile) \<noteq> 0 then header_file w file line b
              else Inr b)
     in case r of
          Inl err \<Rightarrow> Inl err
        | Inr b \<Rightarrow>
           (if cw_f w AND (Ltypefunc OR Lfuncname) \<noteq> 0 then
              (let fname = (if line = - 1 then fst (NameFileLine e loc) else fname)
               in case header_func w fname b of
                    Inl err \<Rightarrow> Inl err
                  | Inr b \<Rightarrow> Inr (w\<lparr>cw_buf := b\<rparr>))
            else Inr (w\<lparr>cw_buf := b\<rparr>)))"

text \<open>\<^verbatim>\<open>bufWriter.NewLine\<close>.\<close>

definition NewLine :: "byte list \<Rightarrow> byte list" where
  "NewLine b = (if length b = 0 \<or> last b \<noteq> 0x0A then b @ [0x0A] else b)"

text \<open>
  The span-id column: the first \<^verbatim>\<open>IDWidth\<close> characters of the 32-character
  placeholder are appended and \<^verbatim>\<open>FormatTo\<close> with the verb \<^verbatim>\<open>'v'\<close> writes over them.
\<close>

definition id_column :: "env \<Rightarrow> ConsoleWriter \<Rightarrow> byte list \<Rightarrow> ID \<Rightarrow> panic + byte list" where
  "id_column e w b i =
    (case str_to ''123456789_123456789_123456789_12'' (cw_IDWidth w) of
       Inl err \<Rightarrow> Inl err
     | Inr holder \<Rightarrow> Inr (b @ FormatTo_into e i (bytes_of holder) (CHR ''v'')))"

definition ConsoleWriter_Message :: "env \<Rightarrow> ConsoleWriter \<Rightarrow> Message \<Rightarrow> ID \<Rightarrow> panic + ConsoleWriter" where
  "ConsoleWriter_Message e w m sid =
    (case buildHeader e w (msg_Location m) (msg_Time m) of
       Inl err \<Rightarrow> Inl err
     | Inr w \<Rightarrow>
        (case (if cw_f w AND Lmessagespan \<noteq> 0
               then (case id_column e w (cw_buf w) sid of
                       Inl err \<Rightarrow> Inl err
                     | Inr b \<Rightarrow> Inr (w\<lparr>cw_buf := b @ bytes_of ''  ''\<rparr>))
               else Inr w) of
           Inl err \<Rightarrow> Inl err
         | Inr w \<Rightarrow>
            (let w = (case msg_Args m of
                        Some args \<Rightarrow> w\<lparr>cw_buf := cw_buf w @ AppendPrintf e (msg_Format m) args\<rparr>
                      | None \<Rightarrow> w\<lparr>cw_buf := cw_buf w @ bytes_of (msg_Format m)\<rparr>);
                 w = w\<lparr>cw_buf := NewLine (cw_buf w)\<rparr>
             in Inr (w\<lparr>cw_w := cw_w w @ [cw_buf w]\<rparr>))))"






subsection \<open>An environment for the worked examples\<close>

text \<open>
  A resolver that maps every location to the given function name, file and line, a
  clock at 2020-01-02 03:04:05 in either zone, span ids rendered as up to 32 zeros, and a
  \<^verbatim>\<open>printf\<close> that renders \<^verbatim>\<open>"hi %d"\<close> with the argument 5 as \<^verbatim>\<open>hi 5\<close> and any other
  call as its format string.
\<close>

definition example_env :: "string \<Rightarrow> string \<Rightarrow> int \<Rightarrow> env" where
  "example_env fn file line =
     \<lparr>NameFileLine = (\<lambda>l. (fn, file, line)),
      Entry = (\<lambda>l. l),
      splitTime = (\<lambda>utc ts. (2020, 1, 2, 3, 4, 5)),
      FormatTo = (\<lambda>i n verb. replicate (min n 32) 0x30),
      AppendPrintf = (\<lambda>fmt args. if fmt = ''hi %d'' \<and> args = [ArgInt 5] then bytes_of ''hi 5''
                                  else bytes_of fmt),
      appendSafe = bytes_of,
      AppendFloat = (\<lambda>v fmt prec. bytes_of ''0''),
      AppendMillis = (\<lambda>el. bytes_of ''0.00''),
      now = 0,
      caller = 0\<rparr>"

subsection \<open>The wire format of the binary encoder, as the specification describes it\<close>

text \<open>
  A record is a frame: the length of its body as a varint, then the body. Inside a
  frame a field is its tag followed by a varint (wire type 0), by eight little-endian
  bytes (wire type 1), or by a length and that many bytes (wire type 2).
\<close>

definition framed :: "byte list \<Rightarrow> byte list" where
  "framed body = varint_bytes (u64 (length body)) @ body"

definition field_varint :: "byte \<Rightarrow> uint64 \<Rightarrow> byte list" where
  "field_varint t v = t # varint_bytes v"

definition field_fixed64 :: "byte \<Rightarrow> uint64 \<Rightarrow> byte list" where
  "field_fixed64 t v = t # PutUint64 v"

definition field_bytes :: "byte \<Rightarrow> byte list \<Rightarrow> byte list" where
  "field_bytes t payload = t # varint_bytes (u64 (length payload)) @ payload"

text \<open>
  The records of the specification's table of field numbers. The span id and the parent
  id are left out when zero, the location field when the token is zero.
\<close>

definition opt_id_field :: "byte \<Rightarrow> ID \<Rightarrow> byte list" where
  "opt_id_field t i = (if i \<noteq> 0 then field_bytes t (id_bytes i) else [])"

definition opt_loc_field :: "byte \<Rightarrow> Location \<Rightarrow> byte list" where
  "opt_loc_field t l = (if l \<noteq> 0 then field_varint t l else [])"

definition label_fields :: "byte \<Rightarrow> string list \<Rightarrow> byte list" where
  "label_fields t ls = concat (map (\<lambda>l. field_bytes t (bytes_of l)) ls)"

definition Labels_record :: "string list \<Rightarrow> ID \<Rightarrow> byte list" where
  "Labels_record ls sid = framed (field_bytes 0x0A (opt_id_field 0x0A sid @ label_fields 0x12 ls))"

definition Location_record :: "env \<Rightarrow> Location \<Rightarrow> byte list" where
  "Location_record e l =
    (case NameFileLine e l of
       (name, file, line) \<Rightarrow>
         framed (field_bytes 0x12
           (field_varint 0x08 l @ field_varint 0x10 (Entry e l) @ field_bytes 0x1A (bytes_of name)
            @ field_bytes 0x22 (bytes_of file) @ field_varint 0x28 (of_int line))))"

definition message_text :: "env \<Rightarrow> Message \<Rightarrow> byte list" where
  "message_text e m =
    (case msg_Args m of Some args \<Rightarrow> AppendPrintf e (msg_Format m) args
     | None \<Rightarrow> bytes_of (msg_Format m))"

definition Message_record :: "env \<Rightarrow> Message \<Rightarrow> ID \<Rightarrow> byte list" where
  "Message_record e m sid =
     framed (field_bytes 0x1A
       (opt_id_field 0x0A sid @ opt_loc_field 0x10 (msg_Location m)
        @ field_fixed64 0x19 (msg_Time m) @ field_bytes 0x22 (message_text e m)))"

definition SpanStarted_record :: "ID \<Rightarrow> ID \<Rightarrow> int64 \<Rightarrow> Location \<Rightarrow> byte list" where
  "SpanStarted_record sid par st loc =
     framed (field_bytes 0x22
       (field_bytes 0x0A (id_bytes sid) @ opt_id_field 0x12 par @ opt_loc_field 0x18 loc
        @ field_fixed64 0x21 st))"

definition SpanFinished_record :: "ID \<Rightarrow> int64 \<Rightarrow> byte list" where
  "SpanFinished_record sid el =
     framed (field_bytes 0x2A (field_bytes 0x0A (id_bytes sid) @ field_varint 0x10 el))"

definition Metric_record :: "Metric \<Rightarrow> ID \<Rightarrow> byte list" where
  "Metric_record m sid =
     framed (field_bytes 0x32
       (opt_id_field 0x0A sid @ field_bytes 0x12 (bytes_of (met_Name m))
        @ field_fixed64 0x19 (met_Value m) @ label_fields 0x22 (met_Labels m)))"

subsection \<open>Labels (the package's main file)\<close>

text \<open>\<^verbatim>\<open>Labels\<close> is a \<^verbatim>\<open>[]string\<close>.\<close>

type_synonym Labels = "string list"

text \<open>The test \<^verbatim>\<open>l == k || strings.HasPrefix(l, k+"=")\<close> of \<^verbatim>\<open>Set\<close>, \<^verbatim>\<open>Get\<close> and \<^verbatim>\<open>Del\<close>.\<close>

definition has_key :: "string \<Rightarrow> string \<Rightarrow> bool" where
  "has_key k l = (l = k \<or> prefix (k @ ''='') l)"

text \<open>The loop of \<^verbatim>\<open>Set\<close>, from index \<open>i\<close> on; \<open>val\<close> is the entry to store.\<close>

fun Set_loop :: "Labels \<Rightarrow> string \<Rightarrow> string \<Rightarrow> Labels" where
  "Set_loop [] k val = [val]"
| "Set_loop (l # ls) k val =
    (if l = ''='' @ k then val # ls
     else if has_key k l then val # ls
     else l # Set_loop ls k val)"

definition Labels_Set :: "Labels \<Rightarrow> string \<Rightarrow> string \<Rightarrow> Labels" where
  "Labels_Set ls k v = (let val = (if v \<noteq> [] then k @ ''='' @ v else k) in Set_loop ls k val)"

fun Labels_Get :: "Labels \<Rightarrow> string \<Rightarrow> string \<times> bool" where
  "Labels_Get [] k = ([], False)"
| "Labels_Get (l # ls) k =
    (if l = k then ([], True)
     else if prefix (k @ ''='') l then (drop (length k + 1) l, True)
     else Labels_Get ls k)"

text \<open>
  \<^verbatim>\<open>Del\<close> returns at the first tombstone; after it has written a tombstone it goes on
  to the next index.
\<close>

fun Labels_Del :: "Labels \<Rightarrow> string \<Rightarrow> Labels" where
  "Labels_Del [] k = []"
| "Labels_Del (l # ls) k =
    (if l = ''='' @ k then l # ls
     else if has_key k l then (''='' @ k) # Labels_Del ls k
     else l # Labels_Del ls k)"

text \<open>
  \<^verbatim>\<open>strings.SplitN(s, "=", 2)\<close>: the string itself when it holds no \<^verbatim>\<open>=\<close>, else what
  stands before the first \<^verbatim>\<open>=\<close> and what stands after it.
\<close>

definition SplitN2 :: "string \<Rightarrow> string list" where
  "SplitN2 s =
    (if CHR ''='' \<in> set s
     then [takeWhile (\<lambda>c. c \<noteq> CHR ''='') s, tl (dropWhile (\<lambda>c. c \<noteq> CHR ''='') s)]
     else [s])"

fun Labels_Merge :: "Labels \<Rightarrow> Labels \<Rightarrow> panic + Labels" where
  "Labels_Merge ls [] = Inr ls"
| "Labels_Merge ls (add # b) =
    (if add = [] then Labels_Merge ls b
     else let kv = SplitN2 add in
       case index_s kv 0 of
         Inl e \<Rightarrow> Inl e
       | Inr kv0 \<Rightarrow>
          (if kv0 = [] then
             (case index_s kv 1 of
                Inl e \<Rightarrow> Inl e
              | Inr kv1 \<Rightarrow> Labels_Merge (Labels_Del ls kv1) b)
           else
             (case index_s kv 1 of
                Inl e \<Rightarrow> Inl e
              | Inr kv1 \<Rightarrow> Labels_Merge (Labels_Set ls kv0 kv1) b)))"

text \<open>
  What the specification says \<^verbatim>\<open>Merge\<close> does: the entries of \<open>b\<close> in order, \<^verbatim>\<open>Del(k)\<close>
  for an entry \<^verbatim>\<open>=k\<close>, \<^verbatim>\<open>Set(k, v)\<close> for \<^verbatim>\<open>k=v\<close>, \<^verbatim>\<open>Set(k, "")\<close> for a bare key.
\<close>

fun Merge_spec :: "Labels \<Rightarrow> Labels \<Rightarrow> Labels" where
  "Merge_spec ls [] = ls"
| "Merge_spec ls (add # b) =
    (case add of
       c # k \<Rightarrow>
         (if c = CHR ''='' then Merge_spec (Labels_Del ls k) b
          else Merge_spec
                 (Labels_Set ls (takeWhile (\<lambda>c. c \<noteq> CHR ''='') add)
                    (drop 1 (dropWhile (\<lambda>c. c \<noteq> CHR ''='') add))) b)
     | [] \<Rightarrow> Merge_spec (Labels_Set ls [] []) b)"

text \<open>An entry for the key \<open>k\<close>: its tombstone, the bare key, or \<open>k=...\<close>.\<close>

definition entry_of :: "string \<Rightarrow> string \<Rightarrow> bool" where
  "entry_of k l = (l = ''='' @ k \<or> has_key k l)"

subsection \<open>Sequences of writer operations\<close>

text \<open>
  The five operations of the \<^verbatim>\<open>Writer\<close> interface as values, and a writer driven through
  a list of them. Only \<^verbatim>\<open>Message\<close> and \<^verbatim>\<open>SpanStarted\<close> carry a location.
\<close>

datatype event =
  EvLabels "string list" ID
| EvMessage Message ID
| EvMetric Metric ID
| EvSpanStarted ID ID int64 Location
| EvSpanFinished ID int64

fun event_location :: "event \<Rightarrow> Location" where
  "event_location (EvMessage m sid) = msg_Location m"
| "event_location (EvSpanStarted sid par st loc) = loc"
| "event_location (EvLabels ls sid) = 0"
| "event_location (EvMetric m sid) = 0"
| "event_location (EvSpanFinished sid el) = 0"

fun JSONWriter_write :: "env \<Rightarrow> JSONWriter \<Rightarrow> event \<Rightarrow> JSONWriter" where
  "JSONWriter_write e w (EvLabels ls sid) = JSONWriter_Labels e w ls sid"
| "JSONWriter_write e w (EvMessage m sid) = JSONWriter_Message e w m sid"
| "JSONWriter_write e w (EvMetric m sid) = JSONWriter_Metric e w m sid"
| "JSONWriter_write e w (EvSpanStarted sid par st loc) = JSONWriter_SpanStarted e w sid par st loc"
| "JSONWriter_write e w (EvSpanFinished sid el) = JSONWriter_SpanFinished e w sid el"

fun JSONWriter_run :: "env \<Rightarrow> JSONWriter \<Rightarrow> event list \<Rightarrow> JSONWriter" where
  "JSONWriter_run e w [] = w"
| "JSONWriter_run e w (ev # evs) = JSONWriter_run e (JSONWriter_write e w ev) evs"

fun ProtoWriter_write :: "env \<Rightarrow> ProtoWriter \<Rightarrow> event \<Rightarrow> panic + ProtoWriter" where
  "ProtoWriter_write e pw (EvLabels ls sid) = Inr (ProtoWriter_Labels pw ls sid)"
| "ProtoWriter_write e pw (EvMessage m sid) = ProtoWriter_Message e pw m sid"
| "ProtoWriter_write e pw (EvMetric m sid) = Inr (ProtoWriter_Metric pw m sid)"
| "ProtoWriter_write e pw (EvSpanStarted sid par st loc) =
     Inr (ProtoWriter_SpanStarted e pw sid par st loc)"
| "ProtoWriter_write e pw (EvSpanFinished sid el) = Inr (ProtoWriter_SpanFinished pw sid el)"

fun ProtoWriter_run :: "env \<Rightarrow> ProtoWriter \<Rightarrow> event list \<Rightarrow> panic + ProtoWriter" where
  "ProtoWriter_run e pw [] = Inr pw"
| "ProtoWriter_run e pw (ev # evs) =
    (case ProtoWriter_write e pw ev of
       Inl err \<Rightarrow> Inl err
     | Inr pw \<Rightarrow> ProtoWriter_run e pw evs)"



text \<open>
  What a write holds, read off the operations: the record of the event, and in front of
  it the record of its location when the location is not zero and not in the set of
  locations seen so far.
\<close>

datatype item = LocationRecord Location | EventRecord event

fun emitted :: "Location set \<Rightarrow> event list \<Rightarrow> item list list" where
  "emitted seen [] = []"
| "emitted seen (ev # evs) =
    (if event_location ev \<noteq> 0 \<and> event_location ev \<notin> seen
     then [LocationRecord (event_location ev), EventRecord ev]
            # emitted (insert (event_location ev) seen) evs
     else [EventRecord ev] # emitted seen evs)"

text \<open>
  The bytes of a record, as the specification describes the two wire formats. A JSON
  record is one object on a line of its own, with the members of section 4.2 in their
  order; the optional members are left out as the specification marks them. Integers are
  decimal, a span id is what \<^verbatim>\<open>FormatTo\<close> renders with the verb \<^verbatim>\<open>'x'\<close>, a string is
  what \<^verbatim>\<open>appendSafe\<close> makes of it, and the text of a message is put between the quotes
  as it is. The binary records are the frames of the table of section 4.3.
\<close>

definition json_int :: "int \<Rightarrow> byte list" where
  "json_int i = AppendInt [] i"

definition json_strings :: "env \<Rightarrow> string list \<Rightarrow> byte list" where
  \<open>json_strings e ls =
    (case ls of
       [] \<Rightarrow> []
     | l # ls \<Rightarrow>
         bytes_of ''"'' @ appendSafe e l @ bytes_of ''"''
         @ concat (map (\<lambda>l. bytes_of '',"'' @ appendSafe e l @ bytes_of ''"'') ls))\<close>

definition json_span_member :: "env \<Rightarrow> ID \<Rightarrow> byte list" where
  \<open>json_span_member e sid =
    (if sid \<noteq> 0 then json_id e [] ''"s":"'' ''123456789_123456789_123456789_12",'' sid else [])\<close>

definition JSON_location_record :: "env \<Rightarrow> Location \<Rightarrow> byte list" where
  \<open>JSON_location_record e l =
    (case NameFileLine e l of
       (name, file, line) \<Rightarrow>
         bytes_of ''{"l":{"p":'' @ json_int (sint l)
         @ bytes_of '',"e":'' @ json_int (sint (Entry e l))
         @ bytes_of '',"f":"'' @ appendSafe e file
         @ bytes_of ''","l":'' @ json_int line
         @ bytes_of '',"n":"'' @ appendSafe e name
         @ bytes_of ''"}}'' @ [0x0A])\<close>

fun JSON_event_record :: "env \<Rightarrow> event \<Rightarrow> byte list" where
  \<open>JSON_event_record e (EvLabels ls sid) =
     bytes_of ''{"L":{'' @ json_span_member e sid
     @ bytes_of ''"L":['' @ json_strings e ls @ bytes_of '']}}'' @ [0x0A]\<close>
| \<open>JSON_event_record e (EvMessage m sid) =
     bytes_of ''{"m":{'' @ json_span_member e sid
     @ bytes_of ''"t":'' @ json_int (sint (msg_Time m))
     @ (if msg_Location m \<noteq> 0 then bytes_of '',"l":'' @ json_int (sint (msg_Location m)) else [])
     @ bytes_of '',"m":"'' @ message_text e m @ bytes_of ''"}}'' @ [0x0A]\<close>
| \<open>JSON_event_record e (EvMetric m sid) =
     bytes_of ''{"v":{'' @ json_span_member e sid
     @ bytes_of ''"n":"'' @ appendSafe e (met_Name m)
     @ bytes_of ''","v":'' @ AppendFloat e (met_Value m) (CHR ''g'') (- 1)
     @ (if met_Labels m \<noteq> []
        then bytes_of '',"L":['' @ json_strings e (met_Labels m) @ bytes_of '']'' else [])
     @ bytes_of ''}}'' @ [0x0A]\<close>
| \<open>JSON_event_record e (EvSpanStarted sid par st loc) =
     json_id e [] ''{"s":{"i":"'' ''123456789_123456789_123456789_12"'' sid
     @ bytes_of '',"s":'' @ json_int (sint st)
     @ bytes_of '',"l":'' @ json_int (sint loc)
     @ (if par \<noteq> 0 then json_id e [] '',"p":"'' ''123456789_123456789_123456789_12"'' par else [])
     @ bytes_of ''}}'' @ [0x0A]\<close>
| \<open>JSON_event_record e (EvSpanFinished sid el) =
     json_id e [] ''{"f":{"i":"'' ''123456789_123456789_123456789_12"'' sid
     @ bytes_of '',"e":'' @ json_int (sint el) @ bytes_of ''}}'' @ [0x0A]\<close>

fun JSON_render :: "env \<Rightarrow> item \<Rightarrow> byte list" where
  "JSON_render e (LocationRecord l) = JSON_location_record e l"
| "JSON_render e (EventRecord ev) = JSON_event_record e ev"

fun Proto_event_record :: "env \<Rightarrow> event \<Rightarrow> byte list" where
  "Proto_event_record e (EvLabels ls sid) = Labels_record ls sid"
| "Proto_event_record e (EvMessage m sid) = Message_record e m sid"
| "Proto_event_record e (EvMetric m sid) = Metric_record m sid"
| "Proto_event_record e (EvSpanStarted sid par st loc) = SpanStarted_record sid par st loc"
| "Proto_event_record e (EvSpanFinished sid el) = SpanFinished_record sid el"

fun Proto_render :: "env \<Rightarrow> item \<Rightarrow> byte list" where
  "Proto_render e (LocationRecord l) = Location_record e l"
| "Proto_render e (EventRecord ev) = Proto_event_record e ev"

subsection \<open>Records that delimit themselves\<close>

text \<open>
  A record of the two text formats delimits itself when it is one line: it is not empty,
  it ends with a newline, and no newline stands before its end. A record of the binary
  format delimits itself by its length prefix: reading a frame off a stream of bytes
  takes the varint, then that many bytes, and leaves the rest.
\<close>

definition one_line :: "byte list \<Rightarrow> bool" where
  "one_line p = (p \<noteq> [] \<and> last p = 0x0A \<and> 0x0A \<notin> set (butlast p))"




subsection \<open>The lines of the console encoder, as the specification describes them\<close>










subsection \<open>The rotating file sink (rotated/file.go)\<close>

text \<open>
  The operating system is an in-memory world: the files in the order of their creation,
  the paths whose creation is refused, the bytes the device still takes, and whether
  \<^verbatim>\<open>Close\<close> reports an error. An open \<^verbatim>\<open>*os.File\<close> is the path it was opened under;
  \<^verbatim>\<open>nil\<close> is \<open>None\<close>. The files are opened with \<^verbatim>\<open>O_EXCL\<close>, so opening an existing
  path fails with \<^verbatim>\<open>EEXIST\<close>, and with \<^verbatim>\<open>O_APPEND\<close>, so a write goes to the end.
\<close>

datatype errno = EEXIST | EACCES | ENOSPC | EIO | EINVAL

record world =
  files :: "(string \<times> byte list) list"
  denied :: "string list"
  space :: nat
  close_fails :: bool

text \<open>An \<^verbatim>\<open>*os.PathError\<close>: operation, path and cause.\<close>

datatype os_error = PathError string string errno

definition errno_text :: "errno \<Rightarrow> string" where
  "errno_text e = (case e of EEXIST \<Rightarrow> ''file exists'' | EACCES \<Rightarrow> ''permission denied''
     | ENOSPC \<Rightarrow> ''no space left on device'' | EIO \<Rightarrow> ''input/output error''
     | EINVAL \<Rightarrow> ''invalid argument'')"

definition Error :: "os_error \<Rightarrow> string" where
  "Error e = (case e of PathError op path c \<Rightarrow> op @ '' '' @ path @ '': '' @ errno_text c)"

definition IsExist :: "os_error option \<Rightarrow> bool" where
  "IsExist err = (case err of Some (PathError op path c) \<Rightarrow> c = EEXIST | None \<Rightarrow> False)"

record File =
  f :: "string option"
  nbytes :: int
  name :: string
  MaxSize :: int
  Fallback :: "byte list list option"

definition Create :: "string \<Rightarrow> File" where
  "Create nm = \<lparr>f = None, nbytes = 0, name = nm, MaxSize = push_bit 30 1, Fallback = Some []\<rparr>"

text \<open>\<^verbatim>\<open>fopen\<close>: \<^verbatim>\<open>os.OpenFile\<close> with \<^verbatim>\<open>O_WRONLY|O_CREATE|O_APPEND|O_EXCL\<close>.\<close>

definition fopen :: "world \<Rightarrow> string \<Rightarrow> world \<times> string option \<times> os_error option" where
  "fopen os path =
    (if path \<in> fst ` set (files os) then (os, None, Some (PathError ''open'' path EEXIST))
     else if path \<in> set (denied os) then (os, None, Some (PathError ''open'' path EACCES))
     else (os\<lparr>files := files os @ [(path, [])]\<rparr>, Some path, None))"

text \<open>
  \<^verbatim>\<open>(*os.File).Write\<close>: the device takes what it has room for; a short write is an
  error.
\<close>

definition os_write :: "world \<Rightarrow> string \<Rightarrow> byte list \<Rightarrow> world \<times> int \<times> os_error option" where
  "os_write os path p =
    (let n = min (length p) (space os);
         os' = os\<lparr>files := map (\<lambda>(q, c). if q = path then (q, c @ take n p) else (q, c)) (files os),
                   space := space os - n\<rparr>
     in (os', int n, if n < length p then Some (PathError ''write'' path ENOSPC) else None))"

definition os_close :: "world \<Rightarrow> string \<Rightarrow> os_error option" where
  "os_close os path = (if close_fails os then Some (PathError ''close'' path EIO) else None)"

text \<open>\<^verbatim>\<open>fallback\<close>: the tag line, then the raw message unless it is \<^verbatim>\<open>nil\<close>.\<close>

definition fallback :: "byte list list option \<Rightarrow> string \<Rightarrow> os_error \<Rightarrow> byte list option
    \<Rightarrow> byte list list option" where
  "fallback w r err msg =
    (case w of
       None \<Rightarrow> None
     | Some log \<Rightarrow>
        (let log = log @ [bytes_of (r @ '': '' @ Error err @ [CHR 0x0A])]
         in case msg of None \<Rightarrow> Some log | Some m \<Rightarrow> Some (log @ [m])))"

text \<open>\<^verbatim>\<open>fmt.Sprintf("%x", n)\<close> for \<open>n \<ge> 0\<close>.\<close>

definition hex_digit :: "nat \<Rightarrow> char" where
  "hex_digit d = ''0123456789abcdef'' ! d"

function hex_nat :: "nat \<Rightarrow> string" where
  "hex_nat n = (if n < 16 then [hex_digit n] else hex_nat (n div 16) @ [hex_digit (n mod 16)])"
  by pat_completeness auto
termination
  by (relation "measure (\<lambda>n. n)") auto

text \<open>\<^verbatim>\<open>strings.LastIndexByte\<close>: \<open>-1\<close> when the byte does not occur.\<close>

definition LastIndexByte :: "string \<Rightarrow> char \<Rightarrow> int" where
  "LastIndexByte s c =
    (case filter (\<lambda>i. s ! i = c) (rev [0..<length s]) of [] \<Rightarrow> -1 | i # _ \<Rightarrow> int i)"

text \<open>
  \<^verbatim>\<open>filepath.Ext\<close>: from the last dot of the last path element on; empty when that
  element has no dot.
\<close>

definition Ext :: "string \<Rightarrow> string" where
  "Ext path =
    (case dropWhile (\<lambda>c. c \<noteq> CHR ''.'' \<and> c \<noteq> CHR ''/'') (rev path) of
       [] \<Rightarrow> []
     | c # _ \<Rightarrow>
        (if c = CHR ''.''
         then CHR ''.'' # rev (takeWhile (\<lambda>c. c \<noteq> CHR ''.'' \<and> c \<noteq> CHR ''/'') (rev path))
         else []))"

definition TrimSuffix :: "string \<Rightarrow> string \<Rightarrow> string" where
  "TrimSuffix s suf = (if suffix suf s then take (length s - length suf) s else s)"

text \<open>
  \<^verbatim>\<open>fname\<close>. The constant \<^verbatim>\<open>timeFormat\<close> is declared outside the sources at hand, so
  the formatted time \<^verbatim>\<open>now.Format(timeFormat)\<close> is the parameter \<open>stamp\<close>.
\<close>

definition fname :: "string \<Rightarrow> string \<Rightarrow> int \<Rightarrow> string" where
  "fname nm stamp try =
    (let uniq = stamp;
         uniq = (if try \<noteq> 0 then uniq @ ''_'' @ hex_nat (nat try) else uniq);
         p = LastIndexByte nm (CHR ''#'')
     in if p \<noteq> -1 then take (nat p) nm @ uniq @ drop (nat p + 1) nm
        else let ext = Ext nm; nm = TrimSuffix nm ext in nm @ ''_'' @ uniq @ ext)"

text \<open>The retry loop of \<^verbatim>\<open>rotate\<close>, from the label \<^verbatim>\<open>again\<close>.\<close>

function rotate_again :: "world \<Rightarrow> string \<Rightarrow> string \<Rightarrow> int
    \<Rightarrow> world \<times> string option \<times> os_error option" where
  "rotate_again os nm stamp try =
    (let path = fname nm stamp try;
         (os', fl, err) = fopen os path
     in if IsExist err \<and> try < 10 then rotate_again os' nm stamp (try + 1)
        else (os', fl, err))"
  by pat_completeness auto
termination
  by (relation "measure (\<lambda>(os, nm, stamp, try). nat (10 - try))") auto

definition rotate :: "File \<Rightarrow> world \<Rightarrow> string \<Rightarrow> File \<times> world \<times> os_error option" where
  "rotate w os stamp =
    (let w = (case f w of
                None \<Rightarrow> w
              | Some path \<Rightarrow>
                 (case os_close os path of
                    None \<Rightarrow> w
                  | Some err \<Rightarrow> w\<lparr>Fallback := fallback (Fallback w) ''CLOSE FAILED'' err None\<rparr>));
         (os', fl, err) = rotate_again os (name w) stamp 0
     in (w\<lparr>f := fl\<rparr>, os', err))"

text \<open>
  \<^verbatim>\<open>File.Write\<close>. The result is the sink, the world, the count \<open>n\<close> and the error; the
  last component tells whether \<^verbatim>\<open>rotate\<close> was called. A \<^verbatim>\<open>Write\<close> on a \<^verbatim>\<open>nil\<close> file
  returns \<^verbatim>\<open>os.ErrInvalid\<close>.
\<close>

definition File_Write :: "File \<Rightarrow> world \<Rightarrow> string \<Rightarrow> byte list
    \<Rightarrow> File \<times> world \<times> int \<times> os_error option \<times> bool" where
  "File_Write w os stamp p =
    (let rotated = (f w = None \<or> nbytes w + int (length p) > MaxSize w);
         (w, os, rerr) = (if rotated then rotate w os stamp else (w, os, None))
     in case rerr of
          Some err \<Rightarrow>
            (w\<lparr>Fallback := fallback (Fallback w) ''ROTATE FAILED'' err (Some p)\<rparr>, os, 0, Some err,
             rotated)
        | None \<Rightarrow>
           (case f w of
              None \<Rightarrow>
                (w\<lparr>Fallback := fallback (Fallback w) ''WRITE FAILED'' (PathError ''write'' [] EINVAL)
                              (Some p)\<rparr>,
                 os, 0, Some (PathError ''write'' [] EINVAL), rotated)
            | Some path \<Rightarrow>
               (let (os, n, err) = os_write os path p
                in case err of
                     Some e \<Rightarrow>
                       (w\<lparr>Fallback := fallback (Fallback w) ''WRITE FAILED'' e (Some p)\<rparr>, os, n,
                        Some e, rotated)
                   | None \<Rightarrow> (w\<lparr>nbytes := nbytes w + n\<rparr>, os, n, None, rotated))))"

section \<open>Theorems\<close>

text \<open>
  The equations of the functions defined by general recursion are unfolded on demand
  only.
\<close>

declare std_varint.simps [simp del]
declare hex_nat.simps [simp del]
declare dec_nat.simps [simp del]
declare rotate_again.simps [simp del]
declare grow_cap.simps [simp del]
declare ndigits.simps [simp del]
declare funcname_digits.simps [simp del]

subsection \<open>The varint codec\<close>

lemma bit_128: "bit (128 :: 'a::semiring_bit_operations) n \<longleftrightarrow> possible_bit TYPE('a) n \<and> n = 7"
proof -
  have "(128::'a) = 2 ^ 7" by simp
  then show ?thesis by (simp only: bit_exp_iff)
qed

lemma bit_127: "bit (127 :: 'a::ring_bit_operations) n \<longleftrightarrow> possible_bit TYPE('a) n \<and> n < 7"
proof -
  have "(127::'a) = mask 7" by (simp add: mask_eq_exp_minus_1)
  then show ?thesis by (simp only: bit_mask_iff)
qed

lemma small_bits: "unat (v::'a::len word) < 128 \<Longrightarrow> bit v n \<Longrightarrow> n < 7"
proof -
  assume a: "unat v < 128" and b: "bit v n"
  have "unat v < 2 ^ 7" using a by simp
  then have "take_bit 7 (unat v) = unat v" by (simp add: take_bit_nat_eq_self_iff)
  then have "take_bit 7 v = v" 
    by (metis unsigned_take_bit_eq word_unat_eq_iff)
  then have "bit (take_bit 7 v) n" using b by simp
  then show "n < 7" by (simp add: bit_take_bit_iff)
qed

lemma cont_byte: "byte_of (v OR 0x80) = ucast (v AND 0x7F) OR 0x80"
  unfolding byte_of_def by (rule bit_word_eqI) (auto simp add: bit_simps bit_128 bit_127)

lemma cont_byte_not_last: "\<not> ((x :: byte) OR 0x80) < 0x80"
proof
  assume "x OR 0x80 < 0x80"
  then have "unat (x OR 0x80) < 128" by (simp add: word_less_nat_alt)
  then have "bit (x OR 0x80) 7 \<Longrightarrow> (7::nat) < 7" by (rule small_bits)
  then show False by (simp add: bit_simps bit_128)
qed

lemma last_byte_small: "(v :: uint64) < 0x80 \<Longrightarrow> (ucast v :: byte) < 0x80"
proof -
  assume "v < 0x80"
  then have "unat v < 128" by (simp add: word_less_nat_alt)
  moreover have "take_bit 8 (unat v) \<le> unat v" by (rule take_bit_nat_less_eq_self)
  ultimately have "take_bit 8 (unat v) < 128" by linarith
  then show ?thesis by (simp add: word_less_nat_alt unsigned_ucast_eq)
qed

lemma last_byte_back: "(v :: uint64) < 0x80 \<Longrightarrow> (ucast (ucast v :: byte) :: uint64) = v"
  by (rule bit_word_eqI) (auto simp add: bit_simps word_less_nat_alt dest: small_bits)

lemma group_back:
  "(ucast ((ucast (v AND 0x7F) OR 0x80 :: byte) AND 0x7F) :: uint64) OR push_bit 7 (drop_bit 7 v) = v"
proof (rule bit_word_eqI)
  fix n assume "n < LENGTH(64)"
  show "bit (ucast ((ucast (v AND 0x7F) OR 0x80 :: byte) AND 0x7F) OR push_bit 7 (drop_bit 7 v)) n = bit v n"
  proof (cases "n < 7")
    case True
    then show ?thesis by (auto simp add: bit_simps bit_128 bit_127)
  next
    case False
    then have "7 + (n - 7) = n" by simp
    with False \<open>n < LENGTH(64)\<close> show ?thesis by (auto simp add: bit_simps bit_128 bit_127)
  qed
qed

lemma top_bit: "\<not> (v::uint64) < 0x8000000000000000 \<Longrightarrow> bit v 63"
proof -
  assume "\<not> v < 0x8000000000000000"
  then have "2 ^ 63 \<le> unat v" by (simp add: word_less_nat_alt)
  then have "unat v div 2 ^ 63 \<noteq> 0" by simp
  then have "unat (drop_bit 63 v) \<noteq> 0" by (simp add: unat_drop_bit_eq drop_bit_nat_def)
  then have "drop_bit 63 v \<noteq> 0" by auto
  then show ?thesis using drop_bit_eq_zero_iff_not_bit_last [of v] by simp
qed

lemma top_byte: "\<not> (v::uint64) < 0x8000000000000000 \<Longrightarrow> byte_of (drop_bit 56 v) = ucast (drop_bit 56 v AND 0x7F) OR 0x80"
proof -
  assume "\<not> v < 0x8000000000000000"
  then have b: "bit v 63" by (rule top_bit)
  show ?thesis unfolding byte_of_def
  proof (rule bit_word_eqI)
    fix n assume "n < LENGTH(8)"
    then show "bit (ucast (drop_bit 56 v) :: byte) n = bit (ucast (drop_bit 56 v AND 0x7F) OR 0x80 :: byte) n"
      using b by (cases "n = 7") (auto simp add: bit_simps bit_128 bit_127)
  qed
qed

lemma std_last: "v < 0x80 \<Longrightarrow> std_varint v = [byte_of v]"
  by (simp add: std_varint.simps byte_of_def)

lemma std_cont: "\<not> v < 0x80 \<Longrightarrow> std_varint v = (ucast (v AND 0x7F) OR 0x80) # std_varint (drop_bit 7 v)"
  by (subst std_varint.simps) simp

lemma drop_lt: "(drop_bit n (v::uint64) < 0x80) = (unat v < 128 * 2 ^ n)"
  by (simp add: word_less_nat_alt unat_drop_bit_eq drop_bit_nat_def div_less_iff_less_mult)

lemma drop63_small: "unat (v::uint64) div 9223372036854775808 < 128"
proof -
  have "unat v < 2 ^ 64" using unsigned_less [of v] by simp
  then show ?thesis by simp
qed

lemma varint_bytes_std: "varint_bytes v = std_varint v"
  unfolding varint_bytes_def
  by (simp add: drop63_small std_last std_cont cont_byte top_byte word_less_nat_alt unat_drop_bit_eq drop_bit_nat_def)


lemma decode_std: "decode_varint (std_varint v @ rest) = Some (v, rest)"
proof (induction v rule: std_varint.induct)
  case (1 v)
  show ?case
  proof (cases "v < 0x80")
    case True
    then show ?thesis by (simp add: std_last byte_of_def last_byte_small last_byte_back)
  next
    case False
    with 1 show ?thesis by (simp add: std_cont cont_byte_not_last group_back)
  qed
qed

lemma length_varint_bytes: "length (varint_bytes v) = varintSize v"
  by (simp add: varint_bytes_def varintSize_def)

lemma varintSize_le: "varintSize v \<le> 10" "1 \<le> varintSize v"
  by (simp_all add: varintSize_def)

text \<open>
  Claim C3. For every unsigned 64-bit value \<open>v\<close>, the bytes \<^verbatim>\<open>appendVarint(b, v)\<close> appends
  to \<open>b\<close> are the standard 7-bit continuation encoding of \<open>v\<close>, there are exactly
  \<^verbatim>\<open>varintSize(v)\<close> of them, at most ten, and standard decoding reads \<open>v\<close> back
  (followed by whatever comes after them).
\<close>

theorem appendVarint_standard_roundtrip:
  "fst (appendVarint b v) = fst b @ std_varint v
   \<and> length (fst (appendVarint b v)) = length (fst b) + varintSize v
   \<and> varintSize v \<le> 10
   \<and> decode_varint (drop (length (fst b)) (fst (appendVarint b v)) @ rest) = Some (v, rest)"
proof -
  have enc: "fst (appendVarint b v) = fst b @ std_varint v"
    by (simp add: appendVarint_def append_s_def varint_bytes_std)
  have len: "length (fst (appendVarint b v)) = length (fst b) + varintSize v"
    by (simp add: appendVarint_def append_s_def length_varint_bytes)
  have dec: "decode_varint (drop (length (fst b)) (fst (appendVarint b v)) @ rest) = Some (v, rest)"
    by (simp add: enc decode_std)
  from enc len dec show ?thesis by (simp add: varintSize_le)
qed

subsection \<open>ProtoWriter.SpanFinished on the specification's example\<close>

lemma length_id_bytes: "length (id_bytes i) = 16"
  by (simp add: id_bytes_def)

lemma upt_16: "[0..<16] = [0, 1, 2, 3, 4, 5, 6, 7, 8, 9, 10, 11, 12, 13, 14, 15]"
  by (simp add: upt_rec)

lemma id_bytes_example:
  "id_bytes 0x0102030405060708090A0B0C0D0E0F10 =
     [0x01, 0x02, 0x03, 0x04, 0x05, 0x06, 0x07, 0x08,
      0x09, 0x0A, 0x0B, 0x0C, 0x0D, 0x0E, 0x0F, 0x10]"
  by (simp add: id_bytes_def upt_16)

lemma vs16: "varintSize 16 = 1" "varintSize 250000 = 3" "varintSize 22 = 1"
  by (simp_all add: varintSize_def)

lemma vb: "varint_bytes 250000 = [0x90, 0xA1, 0x0F]" "varint_bytes 16 = [0x10]"
  "varint_bytes 22 = [0x16]" "varint_bytes 24 = [0x18]"
  by (simp_all add: varint_bytes_def byte_of_def)

text \<open>
  Claim C8, as the specification states it: for the span id \<open>01 02 .. 10\<close> and 250000
  elapsed nanoseconds the frame would be \<open>14 2A 12 0A 10 <id> 10 90 8D 0F\<close>. The code
  writes another frame: the statement fails on a fresh writer.
\<close>

theorem SpanFinished_spec_frame_refuted:
  "pw_w (ProtoWriter_SpanFinished NewProtoWriter 0x0102030405060708090A0B0C0D0E0F10 250000)
   \<noteq> [[0x14, 0x2A, 0x12, 0x0A, 0x10,
        0x01, 0x02, 0x03, 0x04, 0x05, 0x06, 0x07, 0x08,
        0x09, 0x0A, 0x0B, 0x0C, 0x0D, 0x0E, 0x0F, 0x10,
        0x10, 0x90, 0x8D, 0x0F]]"
  by (simp add: ProtoWriter_SpanFinished_def NewProtoWriter_def appendVarint_def
      appendTagVarint_def append_s_def u64_def vs16 vb Let_def
      length_id_bytes id_bytes_example)

text \<open>
  Claim C8, amended. For that id and that elapsed time \<^verbatim>\<open>ProtoWriter.SpanFinished\<close>
  performs one write, and its payload is what the buffer held, which is nothing on a new
  writer and after every operation, and then \<open>18 2A 16 0A 10 <id> 10 90 A1 0F\<close>: outer
  length 24, tag \<open>5<<3|2\<close> with inner length 22 (the 18 bytes of the id field and the 4
  of the elapsed field), the id field, then tag \<open>2<<3|0\<close> and the varint of 250000.
\<close>

theorem SpanFinished_example_frame:
  "pw_w (ProtoWriter_SpanFinished pw 0x0102030405060708090A0B0C0D0E0F10 250000)
   = pw_w pw @ [fst (pw_buf pw) @ [0x18, 0x2A, 0x16, 0x0A, 0x10,
        0x01, 0x02, 0x03, 0x04, 0x05, 0x06, 0x07, 0x08,
        0x09, 0x0A, 0x0B, 0x0C, 0x0D, 0x0E, 0x0F, 0x10,
        0x10, 0x90, 0xA1, 0x0F]]"
  by (simp add: ProtoWriter_SpanFinished_def appendVarint_def
      appendTagVarint_def append_s_def u64_def vs16 vb Let_def
      length_id_bytes id_bytes_example)

subsection \<open>Labels\<close>

lemma get_set_loop: "val = k \<or> val = k @ ''='' @ v \<and> v \<noteq> [] \<Longrightarrow> Labels_Get (Set_loop ls k val) k = (if val = k then [] else v, True)"
  by (induction ls) (auto simp add: has_key_def)

lemma get_set: "Labels_Get (Labels_Set ls k v) k = (v, True)"
  by (simp add: Labels_Set_def get_set_loop)

lemma prefix_same_length: "prefix xs ys \<Longrightarrow> length xs = length ys \<Longrightarrow> xs = ys"
  by (auto simp add: prefix_def)

lemma tombstone_not_key: "k @ ''='' \<noteq> ''='' @ k \<Longrightarrow> \<not> has_key k (''='' @ k)"
  by (auto simp add: has_key_def dest: prefix_same_length)

lemma get_no_key: "\<forall>l \<in> set ls. \<not> has_key k l \<Longrightarrow> Labels_Get ls k = ([], False)"
  by (induction ls) (auto simp add: has_key_def)

lemma get_del:
  assumes "k @ ''='' \<noteq> ''='' @ k"
      and "\<forall>l \<in> set (dropWhile (\<lambda>l. l \<noteq> ''='' @ k) ls). \<not> has_key k l"
  shows "Labels_Get (Labels_Del ls k) k = ([], False)"
  using assms(2)
proof (induction ls)
  case Nil
  show ?case by simp
next
  case (Cons l ls)
  have tk: "\<not> has_key k (''='' @ k)" using assms(1) by (rule tombstone_not_key)
  show ?case
  proof (cases "l = ''='' @ k")
    case True
    with Cons.prems have "\<forall>x \<in> set (l # ls). \<not> has_key k x" by simp
    then have "Labels_Get (l # ls) k = ([], False)" by (rule get_no_key)
    with True show ?thesis by simp
  next
    case False
    with Cons.prems have "\<forall>l \<in> set (dropWhile (\<lambda>l. l \<noteq> ''='' @ k) ls). \<not> has_key k l"
      by simp
    then have ih: "Labels_Get (Labels_Del ls k) k = ([], False)" by (rule Cons.IH)
    show ?thesis
    proof (cases "has_key k l")
      case True
      with False ih tk show ?thesis by (simp add: has_key_def)
    next
      case nk: False
      with False ih show ?thesis by (simp add: has_key_def)
    qed
  qed
qed

lemma length_Set_loop_entry: "\<exists>l \<in> set ls. entry_of k l \<Longrightarrow> length (Set_loop ls k val) = length ls"
  by (induction ls) (auto simp add: entry_of_def)

lemma length_Del: "length (Labels_Del ls k) = length ls"
  by (induction ls) auto

lemma set_del_shape:
  "\<exists>l \<in> set ls. entry_of k l \<Longrightarrow>
   Set_loop (Labels_Del ls k) k val =
     takeWhile (\<lambda>l. \<not> entry_of k l) ls @ val # tl (Labels_Del (dropWhile (\<lambda>l. \<not> entry_of k l) ls) k)"
  by (induction ls) (auto simp add: entry_of_def)

lemma del_keeps_others: "j < length ls \<Longrightarrow> \<not> entry_of k (ls ! j) \<Longrightarrow> Labels_Del ls k ! j = ls ! j"
  by (induction ls arbitrary: j) (auto simp add: entry_of_def nth_Cons split: nat.splits)

lemma set_loop_keeps_others: "j < length ls \<Longrightarrow> \<not> entry_of k (ls ! j) \<Longrightarrow> \<exists>l \<in> set ls. entry_of k l \<Longrightarrow> Set_loop ls k val ! j = ls ! j"
  apply (induction ls arbitrary: j) apply (auto simp add: entry_of_def nth_Cons split: nat.splits)
  done

lemma set_loop_first_entry:
  "\<exists>l \<in> set ls. entry_of k l \<Longrightarrow>
   Set_loop (Labels_Del ls k) k val ! length (takeWhile (\<lambda>l. \<not> entry_of k l) ls) = val"
  by (simp add: set_del_shape nth_append)

lemma set_del_keeps_others:
  assumes "\<exists>l \<in> set ls. entry_of k l" and "j < length ls" and "\<not> entry_of k (ls ! j)"
  shows "Set_loop (Labels_Del ls k) k val ! j = ls ! j"
proof -
  have d: "Labels_Del ls k ! j = ls ! j" using assms(2,3) by (rule del_keeps_others)
  have e: "\<exists>l \<in> set (Labels_Del ls k). entry_of k l"
    using assms(1) by (induction ls) (auto simp add: entry_of_def)
  have "Set_loop (Labels_Del ls k) k val ! j = Labels_Del ls k ! j"
    using assms(2,3) d e by (intro set_loop_keeps_others) (simp_all add: length_Del)
  with d show ?thesis by simp
qed

lemma Merge_agrees_with_spec:
  "\<forall>add \<in> set b. CHR ''='' \<in> set add \<Longrightarrow> Labels_Merge ls b = Inr (Merge_spec ls b)"
proof (induction b arbitrary: ls)
  case Nil
  show ?case by simp
next
  case (Cons add b)
  then have eq: "CHR ''='' \<in> set add" and rest: "\<forall>x \<in> set b. CHR ''='' \<in> set x" by simp_all
  from eq obtain c k where add: "add = c # k" by (cases add) auto
  show ?case
  proof (cases "c = CHR ''=''")
    case True
    with add rest show ?thesis by (simp add: SplitN2_def index_s_def Cons.IH)
  next
    case False
    with add eq rest show ?thesis
      by (simp add: SplitN2_def index_s_def Cons.IH drop_Suc)
  qed
qed

text \<open>
  Claim C5. \<^verbatim>\<open>Merge\<close> is to behave as the iteration of \<^verbatim>\<open>Set\<close> and \<^verbatim>\<open>Del\<close> over the
  entries of \<open>b\<close>, a bare key being set with an empty value. On the one-entry list
  holding the bare key \<open>k\<close> the iteration yields the list \<open>[k]\<close>, while the code indexes
  \<^verbatim>\<open>kv[1]\<close> in the one-element result of \<^verbatim>\<open>SplitN\<close> and panics.
\<close>

theorem Labels_Merge_bare_key_panics:
  "Labels_Merge [] [''k''] = Inl IndexOutOfRange \<and> Merge_spec [] [''k''] = [''k'']"
  by (simp add: SplitN2_def index_s_def Labels_Set_def)

text \<open>
  Claim C6, as stated: after \<^verbatim>\<open>Del(k)\<close>, \<^verbatim>\<open>Get(k)\<close> returns \<^verbatim>\<open>("", false)\<close> for every label
  list and key. It does not when a live entry for the key stands behind a tombstone
  (\<^verbatim>\<open>Del\<close> returns at the tombstone), nor for the empty key, whose tombstone \<^verbatim>\<open>=\<close>
  reads as the entry of the empty key with an empty value.
\<close>

theorem Labels_Del_Get_refuted:
  "Labels_Get (Labels_Del [''=a'', ''a=1''] ''a'') ''a'' = (''1'', True)
   \<and> Labels_Get (Labels_Del [''=v''] []) [] = ([], True)"
  by (simp add: has_key_def)

text \<open>
  Claim C6, amended. For every label list \<open>ls\<close>, key \<open>k\<close> and value \<open>v\<close>: after
  \<^verbatim>\<open>Set(k, v)\<close>, \<^verbatim>\<open>Get(k)\<close> returns \<open>(v, true)\<close>; after \<^verbatim>\<open>Del(k)\<close>, \<^verbatim>\<open>Get(k)\<close> returns
  \<^verbatim>\<open>("", false)\<close> provided \<open>k\<close> is not empty or made of \<^verbatim>\<open>=\<close> characters only and no
  live entry for \<open>k\<close> stands at or behind the first tombstone \<^verbatim>\<open>=k\<close> of the list; and
  when the list holds an entry for \<open>k\<close> (live or tombstone), \<^verbatim>\<open>Set(k, v')\<close> after
  \<^verbatim>\<open>Del(k)\<close> keeps the length, stores the new entry at the index of the first entry
  for \<open>k\<close>, and leaves every entry that is not for \<open>k\<close> as it was.
\<close>

theorem Labels_Set_Get_Del:
  "Labels_Get (Labels_Set ls k v) k = (v, True)
   \<and> (k @ ''='' \<noteq> ''='' @ k
        \<and> (\<forall>l \<in> set (dropWhile (\<lambda>l. l \<noteq> ''='' @ k) ls). \<not> has_key k l)
      \<longrightarrow> Labels_Get (Labels_Del ls k) k = ([], False))
   \<and> ((\<exists>l \<in> set ls. entry_of k l)
      \<longrightarrow> length (Labels_Set (Labels_Del ls k) k v') = length ls
        \<and> Labels_Set (Labels_Del ls k) k v' ! length (takeWhile (\<lambda>l. \<not> entry_of k l) ls)
            = (if v' \<noteq> [] then k @ ''='' @ v' else k)
        \<and> (\<forall>j < length ls. \<not> entry_of k (ls ! j)
              \<longrightarrow> Labels_Set (Labels_Del ls k) k v' ! j = ls ! j))"
proof (intro conjI impI allI)
  show "Labels_Get (Labels_Set ls k v) k = (v, True)" by (rule get_set)
next
  assume "k @ ''='' \<noteq> ''='' @ k
        \<and> (\<forall>l \<in> set (dropWhile (\<lambda>l. l \<noteq> ''='' @ k) ls). \<not> has_key k l)"
  then show "Labels_Get (Labels_Del ls k) k = ([], False)" by (simp add: get_del)
next
  assume "\<exists>l \<in> set ls. entry_of k l"
  then have "\<exists>l \<in> set (Labels_Del ls k). entry_of k l"
    by (induction ls) (auto simp add: entry_of_def)
  then show "length (Labels_Set (Labels_Del ls k) k v') = length ls"
    by (simp add: Labels_Set_def length_Set_loop_entry length_Del)
next
  assume "\<exists>l \<in> set ls. entry_of k l"
  then show "Labels_Set (Labels_Del ls k) k v' ! length (takeWhile (\<lambda>l. \<not> entry_of k l) ls)
            = (if v' \<noteq> [] then k @ ''='' @ v' else k)"
    by (simp add: Labels_Set_def set_loop_first_entry)
next
  fix j
  assume "\<exists>l \<in> set ls. entry_of k l" "j < length ls" "\<not> entry_of k (ls ! j)"
  then show "Labels_Set (Labels_Del ls k) k v' ! j = ls ! j"
    by (simp add: Labels_Set_def set_del_keeps_others)
qed

theorem Labels_Set_Get_Del_witness:
  "Labels_Get (Labels_Set [''a=1'', ''b=2''] ''a'' ''3'') ''a'' = (''3'', True)
   \<and> Labels_Get (Labels_Del [''a=1'', ''b=2''] ''a'') ''a'' = ([], False)
   \<and> length (Labels_Set (Labels_Del [''a=1'', ''b=2''] ''a'') ''a'' ''4'') = 2
   \<and> Labels_Set (Labels_Del [''a=1'', ''b=2''] ''a'') ''a'' ''4'' ! 0 = ''a=4''
   \<and> Labels_Set (Labels_Del [''a=1'', ''b=2''] ''a'') ''a'' ''4'' ! 1 = ''b=2''"
  using Labels_Set_Get_Del [of "[''a=1'', ''b=2'']" "''a''" "''3''" "''4''"]
  by (simp add: has_key_def entry_of_def Labels_Set_def)

subsection \<open>The rotating file sink\<close>

lemma fname_example: "fname ''log.txt'' ''T'' 0 = ''log_T.txt''" "fname ''log.txt'' ''T'' 1 = ''log_T_1.txt''"
  "fname ''log.txt'' ''T'' 2 = ''log_T_2.txt''"
  by (simp_all add: fname_def LastIndexByte_def Ext_def TrimSuffix_def hex_nat.simps hex_digit_def
      suffix_def upt_rec)

lemma bytes_of_examples: "bytes_of ''hello'' = [104, 101, 108, 108, 111]" "bytes_of ''world!'' = [119, 111, 114, 108, 100, 33]"
  "bytes_of ''x'' = [120]"
  by (simp_all add: bytes_of_def)

lemma first_write: "File_Write ((Create ''log.txt'')\<lparr>MaxSize := 10\<rparr>)
     \<lparr>files = [], denied = [], space = 1000, close_fails = False\<rparr> ''T'' (bytes_of ''hello'')
  = (\<lparr>f = Some ''log_T.txt'', nbytes = 5, name = ''log.txt'', MaxSize = 10, Fallback = Some []\<rparr>,
  \<lparr>files = [(''log_T.txt'', bytes_of ''hello'')], denied = [],
     space = 995, close_fails = False\<rparr>,
  5, None, True)"
  by (simp add: File_Write_def Create_def rotate_def rotate_again.simps fname_example fopen_def IsExist_def os_write_def bytes_of_examples Let_def)

lemma second_write: "File_Write \<lparr>f = Some ''log_T.txt'', nbytes = 5, name = ''log.txt'', MaxSize = 10, Fallback = Some []\<rparr>
  \<lparr>files = [(''log_T.txt'', bytes_of ''hello'')], denied = [],
     space = 995, close_fails = False\<rparr> ''T'' (bytes_of ''world!'')
  = (\<lparr>f = Some ''log_T_1.txt'', nbytes = 11, name = ''log.txt'', MaxSize = 10,
     Fallback = Some []\<rparr>,
  \<lparr>files = [(''log_T.txt'', bytes_of ''hello''), (''log_T_1.txt'', bytes_of ''world!'')],
     denied = [], space = 989, close_fails = False\<rparr>,
  6, None, True)"
  by (simp add: File_Write_def Create_def rotate_def rotate_again.simps fname_example fopen_def IsExist_def os_write_def os_close_def bytes_of_examples Let_def)

lemma third_write: "File_Write \<lparr>f = Some ''log_T_1.txt'', nbytes = 11, name = ''log.txt'', MaxSize = 10,
     Fallback = Some []\<rparr>
  \<lparr>files = [(''log_T.txt'', bytes_of ''hello''), (''log_T_1.txt'', bytes_of ''world!'')],
     denied = [], space = 989, close_fails = False\<rparr> ''T'' (bytes_of ''x'')
  = (\<lparr>f = Some ''log_T_2.txt'', nbytes = 12, name = ''log.txt'', MaxSize = 10,
     Fallback = Some []\<rparr>,
  \<lparr>files =
     [(''log_T.txt'', bytes_of ''hello''),
      (''log_T_1.txt'', bytes_of ''world!''),
      (''log_T_2.txt'', bytes_of ''x'')],
     denied = [], space = 988, close_fails = False\<rparr>,
  1, None, True)"
  by (simp add: File_Write_def Create_def rotate_def rotate_again.simps fname_example fopen_def IsExist_def os_write_def os_close_def bytes_of_examples Let_def)


lemma rotate_keeps_nbytes: "rotate w os stamp = (w', os', err) \<Longrightarrow> nbytes w' = nbytes w"
  by (auto simp add: rotate_def Let_def split: option.splits prod.splits)

lemma File_Write_rotates_iff:
  "File_Write w os stamp p = (w', os', n, err, rotated) \<Longrightarrow>
   rotated = (f w = None \<or> nbytes w + int (length p) > MaxSize w)"
  by (auto simp add: File_Write_def Let_def split: option.splits prod.splits if_splits)

lemma File_Write_counter_accumulates:
  "File_Write w os stamp p = (w', os', n, None, rotated) \<Longrightarrow> nbytes w' = nbytes w + n"
  by (auto simp add: File_Write_def Let_def split: option.splits prod.splits if_splits
      dest: rotate_keeps_nbytes)

text \<open>
  Claim C9. A rotation is to reset the byte counter before the write advances it.
  \<^verbatim>\<open>rotate\<close> never assigns \<^verbatim>\<open>nbytes\<close>: with \<^verbatim>\<open>MaxSize = 10\<close>, after \<^verbatim>\<open>"hello"\<close> and
  \<^verbatim>\<open>"world!"\<close> there are the two files the specification names, but the counter
  stands at 11, not 6, and a third write of one byte rotates again, into a third file,
  although the second file holds six bytes.
\<close>

theorem File_Write_counter_not_reset:
  "(case File_Write ((Create ''log.txt'')\<lparr>MaxSize := 10\<rparr>)
           \<lparr>files = [], denied = [], space = 1000, close_fails = False\<rparr> ''T'' (bytes_of ''hello'') of
      (w1, os1, n1, e1, r1) \<Rightarrow>
    (case File_Write w1 os1 ''T'' (bytes_of ''world!'') of
      (w2, os2, n2, e2, r2) \<Rightarrow>
    (case File_Write w2 os2 ''T'' (bytes_of ''x'') of
      (w3, os3, n3, e3, r3) \<Rightarrow>
        r1 \<and> r2
        \<and> files os2 = [(''log_T.txt'', bytes_of ''hello''), (''log_T_1.txt'', bytes_of ''world!'')]
        \<and> nbytes w2 = 11
        \<and> r3
        \<and> files os3 = [(''log_T.txt'', bytes_of ''hello''), (''log_T_1.txt'', bytes_of ''world!''),
                        (''log_T_2.txt'', bytes_of ''x'')])))"
  by (simp add: first_write second_write third_write)

subsection \<open>ConsoleWriter on the worked examples\<close>

lemma flags_simps:
  "Ldate = 1" "Ltime = 2" "Lmilliseconds = 4" "Lmicroseconds = 8" "Lshortfile = 16" "Llongfile = 32"
  "Ltypefunc = 64" "Lfuncname = 128" "LUTC = 256" "Lspans = 512" "Lmessagespan = 1024"
  by (simp_all add: Ldate_def Ltime_def Lmilliseconds_def Lmicroseconds_def Lshortfile_def
      Llongfile_def Ltypefunc_def Lfuncname_def LUTC_def Lspans_def Lmessagespan_def)

lemma digit_byte_simps: "digit_byte 2020 = 0x30" "digit_byte 202 = 0x32" "digit_byte 20 = 0x30" "digit_byte 2 = 0x32"
  "digit_byte 1 = 0x31" "digit_byte 3 = 0x33" "digit_byte 4 = 0x34" "digit_byte 5 = 0x35" "digit_byte 17 = 0x37"
  "plain_byte 0 = 0x30" "quot 17 10 = 1" "quot 1 10 = 0" "quot 2 10 = 0" "quot 3 10 = 0" "quot 4 10 = 0" "quot 5 10 = 0"
  "quot 2020 10 = 202" "quot 202 10 = 20" "quot 20 10 = 2"
  by (simp_all add: digit_byte_def plain_byte_def quot_def rem_def)

lemma ndigits_17: "ndigits 17 = 2"
  by (simp add: ndigits.simps digit_byte_simps)

lemma header_time_example:
  "splitTime e False ts = (2020, 1, 2, 3, 4, 5) \<Longrightarrow>
   header_time e (Ldate OR Ltime OR Lshortfile) ts [] = bytes_of ''2020/01/02_03:04:05  ''"
  by (simp add: header_time_def flags_simps Let_def bytes_of_def digit_byte_simps numeral_eq_Suc)

lemma Base_example: "Base ''/a/b/c/main.go'' = ''main.go''"
  by (simp add: Base_def)

lemma spaces_to_20: "str_to spaces 20 = Inr (replicate 20 (CHR '' ''))"
  by (simp add: str_to_def spaces_def)


lemma header_file_example:
  "header_file (NewConsoleWriter (Ldate OR Ltime OR Lshortfile)) ''/a/b/c/main.go'' 17
       (bytes_of ''2020/01/02_03:04:05  '')
     = Inr (bytes_of ''2020/01/02_03:04:05  main.go:17            '')"
  apply (simp only: header_file_def NewConsoleWriter_def flags_simps)
  apply (simp only: Base_example ndigits_17 Let_def)
  apply (simp add: spaces_to_20 bytes_of_def store_s_def numeral_eq_Suc digit_byte_simps)
  done

lemma buildHeader_example:
  assumes "splitTime e False ts = (2020, 1, 2, 3, 4, 5)"
      and "NameFileLine e loc = (fn, ''/a/b/c/main.go'', 17)"
  shows "buildHeader e (NewConsoleWriter (Ldate OR Ltime OR Lshortfile)) loc ts
     = Inr ((NewConsoleWriter (Ldate OR Ltime OR Lshortfile))
               \<lparr>cw_buf := bytes_of ''2020/01/02_03:04:05  main.go:17            ''\<rparr>)"
proof -
  have t: "header_time e (cw_f (NewConsoleWriter (Ldate OR Ltime OR Lshortfile))) ts []
      = bytes_of ''2020/01/02_03:04:05  ''"
    using assms(1) by (simp add: NewConsoleWriter_def header_time_example)
  have fl: "cw_f (NewConsoleWriter (Ldate OR Ltime OR Lshortfile)) AND (Llongfile OR Lshortfile) \<noteq> 0"
     "\<not> cw_f (NewConsoleWriter (Ldate OR Ltime OR Lshortfile)) AND (Ltypefunc OR Lfuncname) \<noteq> 0"
    by (simp_all add: NewConsoleWriter_def flags_simps)
  show ?thesis
    unfolding buildHeader_def
    by (simp add: Let_def t fl assms(2) header_file_example)
qed

lemma Message_shortfile_example:
  assumes "splitTime e False ts = (2020, 1, 2, 3, 4, 5)"
      and "NameFileLine e loc = (fn, ''/a/b/c/main.go'', 17)"
      and "AppendPrintf e ''hi %d'' [ArgInt 5] = bytes_of ''hi 5''"
  shows "ConsoleWriter_Message e (NewConsoleWriter (Ldate OR Ltime OR Lshortfile))
           \<lparr>msg_Location = loc, msg_Time = ts, msg_Format = ''hi %d'', msg_Args = Some [ArgInt 5]\<rparr> sid
     = Inr ((NewConsoleWriter (Ldate OR Ltime OR Lshortfile))
          \<lparr>cw_buf := bytes_of ''2020/01/02_03:04:05  main.go:17            hi 5'' @ [0x0A],
           cw_w := [bytes_of ''2020/01/02_03:04:05  main.go:17            hi 5'' @ [0x0A]]\<rparr>)"
  by (simp add: ConsoleWriter_Message_def buildHeader_example [OF assms(1,2)] assms(3))
     (simp add: NewConsoleWriter_def flags_simps NewLine_def bytes_of_def)


lemma Base_funcname: "Base ''main.a1234567890123456789'' = ''main.a1234567890123456789''"
  by (simp add: Base_def)

lemma cut_funcname:
  "Index ''main.a1234567890123456789'' '').'' = - 1"
  "IndexByte ''main.a1234567890123456789'' (CHR ''.'') = 4"
  by (simp_all add: IndexByte_def)

lemma funcname_digits_example:
  "funcname_digits (bytes_of ''a12345678901234567'') ''a1234567890123456789'' 1 = Inl IndexOutOfRange"
  by (simp add: funcname_digits.simps index_s_def store_s_def bytes_of_def)

lemma header_func_example:
  "header_func (NewConsoleWriter Lfuncname) ''main.a1234567890123456789'' [] = Inl IndexOutOfRange"
  apply (simp only: header_func_def Base_funcname Let_def cut_funcname)
  apply (simp add: NewConsoleWriter_def flags_simps str_from_def str_to_def funcname_digits_example)
  done

lemma buildHeader_funcname_example:
  "buildHeader (example_env ''main.a1234567890123456789'' ''/a/b/c/main.go'' 17)
          (NewConsoleWriter Lfuncname) 1 0 = Inl IndexOutOfRange"
proof -
  have ht: "header_time e (cw_f (NewConsoleWriter Lfuncname)) ts [] = []" for e ts
    by (simp add: header_time_def NewConsoleWriter_def flags_simps)
  have fl: "cw_f (NewConsoleWriter Lfuncname) AND (Llongfile OR Lshortfile) = 0"
     "cw_f (NewConsoleWriter Lfuncname) AND (Ltypefunc OR Lfuncname) \<noteq> 0"
    by (simp_all add: NewConsoleWriter_def flags_simps)
  have nfl: "fst (NameFileLine (example_env fn fl ln) l) = fn" for fn fl ln l
    by (simp add: example_env_def)
  show ?thesis
    unfolding buildHeader_def
    by (simp add: Let_def ht fl nfl header_func_example)
qed



text \<open>
  Claim C7, as stated: the line would begin \<^verbatim>\<open>2020/01/02_03:04:05  c/main.go:17  hi 5\<close>.
  With a resolver, a clock and a \<^verbatim>\<open>printf\<close> that behave as the scenario says, the
  line written has the base name alone in the file column, padded to twenty columns.
\<close>

theorem ConsoleWriter_Message_spec_line_refuted:
  "ConsoleWriter_Message (example_env ''main.main'' ''/a/b/c/main.go'' 17)
       (NewConsoleWriter (Ldate OR Ltime OR Lshortfile))
       \<lparr>msg_Location = 1, msg_Time = 0, msg_Format = ''hi %d'', msg_Args = Some [ArgInt 5]\<rparr> 0
     = Inr ((NewConsoleWriter (Ldate OR Ltime OR Lshortfile))
          \<lparr>cw_buf := bytes_of ''2020/01/02_03:04:05  main.go:17            hi 5'' @ [0x0A],
           cw_w := [bytes_of ''2020/01/02_03:04:05  main.go:17            hi 5'' @ [0x0A]]\<rparr>)
   \<and> \<not> prefix (bytes_of ''2020/01/02_03:04:05  c/main.go:17  hi 5'' @ [0x0A])
          (bytes_of ''2020/01/02_03:04:05  main.go:17            hi 5'' @ [0x0A])"
proof
  show "ConsoleWriter_Message (example_env ''main.main'' ''/a/b/c/main.go'' 17)
       (NewConsoleWriter (Ldate OR Ltime OR Lshortfile))
       \<lparr>msg_Location = 1, msg_Time = 0, msg_Format = ''hi %d'', msg_Args = Some [ArgInt 5]\<rparr> 0
     = Inr ((NewConsoleWriter (Ldate OR Ltime OR Lshortfile))
          \<lparr>cw_buf := bytes_of ''2020/01/02_03:04:05  main.go:17            hi 5'' @ [0x0A],
           cw_w := [bytes_of ''2020/01/02_03:04:05  main.go:17            hi 5'' @ [0x0A]]\<rparr>)"
    by (rule Message_shortfile_example) (simp_all add: example_env_def)
next
  show "\<not> prefix (bytes_of ''2020/01/02_03:04:05  c/main.go:17  hi 5'' @ [0x0A])
          (bytes_of ''2020/01/02_03:04:05  main.go:17            hi 5'' @ [0x0A])"
    by (simp add: bytes_of_def)
qed

text \<open>
  Claim C7, amended. With the flags \<^verbatim>\<open>DATE|TIME|SHORTFILE\<close>, for a message whose time
  splits, in the writer's local zone (the flags do not select UTC), into 2020-01-02
  03:04:05, whose call site resolves to file \<^verbatim>\<open>/a/b/c/main.go\<close> line 17, with format
  \<^verbatim>\<open>"hi %d"\<close> and argument 5 rendered as \<^verbatim>\<open>hi 5\<close>, \<^verbatim>\<open>ConsoleWriter.Message\<close> performs
  one write, of the line \<^verbatim>\<open>2020/01/02_03:04:05  main.go:17            hi 5\<close> and a newline:
  the file column is the base name of the path, a colon and the line, filled with
  spaces to the twenty columns of \<^verbatim>\<open>Shortfile\<close>.
\<close>

theorem ConsoleWriter_Message_example:
  assumes "splitTime e False ts = (2020, 1, 2, 3, 4, 5)"
      and "NameFileLine e loc = (fn, ''/a/b/c/main.go'', 17)"
      and "AppendPrintf e ''hi %d'' [ArgInt 5] = bytes_of ''hi 5''"
  shows "ConsoleWriter_Message e (NewConsoleWriter (Ldate OR Ltime OR Lshortfile))
           \<lparr>msg_Location = loc, msg_Time = ts, msg_Format = ''hi %d'', msg_Args = Some [ArgInt 5]\<rparr> sid
     = Inr ((NewConsoleWriter (Ldate OR Ltime OR Lshortfile))
          \<lparr>cw_buf := bytes_of ''2020/01/02_03:04:05  main.go:17            hi 5'' @ [0x0A],
           cw_w := [bytes_of ''2020/01/02_03:04:05  main.go:17            hi 5'' @ [0x0A]]\<rparr>)"
  using assms by (rule Message_shortfile_example)

theorem ConsoleWriter_Message_example_witness:
  "splitTime (example_env ''main.main'' ''/a/b/c/main.go'' 17) False 0 = (2020, 1, 2, 3, 4, 5)
   \<and> NameFileLine (example_env ''main.main'' ''/a/b/c/main.go'' 17) 1
        = (''main.main'', ''/a/b/c/main.go'', 17)
   \<and> AppendPrintf (example_env ''main.main'' ''/a/b/c/main.go'' 17) ''hi %d'' [ArgInt 5]
        = bytes_of ''hi 5''
   \<and> ConsoleWriter_Message (example_env ''main.main'' ''/a/b/c/main.go'' 17)
           (NewConsoleWriter (Ldate OR Ltime OR Lshortfile))
           \<lparr>msg_Location = 1, msg_Time = 0, msg_Format = ''hi %d'', msg_Args = Some [ArgInt 5]\<rparr> 7
     = Inr ((NewConsoleWriter (Ldate OR Ltime OR Lshortfile))
          \<lparr>cw_buf := bytes_of ''2020/01/02_03:04:05  main.go:17            hi 5'' @ [0x0A],
           cw_w := [bytes_of ''2020/01/02_03:04:05  main.go:17            hi 5'' @ [0x0A]]\<rparr>)"
  using ConsoleWriter_Message_example [of "example_env ''main.main'' ''/a/b/c/main.go'' 17" 0 1
      "''main.main''" 7]
  by (simp add: example_env_def)

text \<open>
  Claim C4. Encoding is to be total for every function name the resolver may return,
  the truncation of the function column included. With only the function-name column
  selected and the name \<^verbatim>\<open>main.a1234567890123456789\<close> (a run of 19 digits behind one
  letter, one more than the column is wide), the loop that copies the trailing digits
  back over the column walks past the start of the buffer and \<^verbatim>\<open>Message\<close> panics.
\<close>

theorem ConsoleWriter_Message_funcname_panics:
  "ConsoleWriter_Message (example_env ''main.a1234567890123456789'' ''/a/b/c/main.go'' 17)
      (NewConsoleWriter Lfuncname)
      \<lparr>msg_Location = 1, msg_Time = 0, msg_Format = ''x'', msg_Args = None\<rparr> 0
   = Inl IndexOutOfRange"
  by (simp add: ConsoleWriter_Message_def buildHeader_funcname_example)

subsection \<open>ProtoWriter: every operation writes the frames of the specification\<close>

lemma fst_append_s [simp]: "fst (append_s b xs) = fst b @ xs"
  by (simp add: append_s_def)

lemma snd_append_s [simp]: "snd (append_s b xs) = drop (length xs) (snd b)"
  by (simp add: append_s_def)

lemma fst_appendVarint [simp]: "fst (appendVarint b v) = fst b @ varint_bytes v"
  by (simp add: appendVarint_def)

lemma snd_appendVarint [simp]: "snd (appendVarint b v) = drop (varintSize v) (snd b)"
  by (simp add: appendVarint_def length_varint_bytes)

lemma fst_appendTagVarint [simp]: "fst (appendTagVarint b t v) = fst b @ t # varint_bytes v"
  by (simp add: appendTagVarint_def)

lemma snd_appendTagVarint [simp]: "snd (appendTagVarint b t v) = drop (Suc (varintSize v)) (snd b)"
  by (simp add: appendTagVarint_def length_varint_bytes)

lemma length_PutUint64 [simp]: "length (PutUint64 v) = 8"
  by (simp add: PutUint64_def)

lemma length_bytes_of [simp]: "length (bytes_of s) = length s"
  by (simp add: bytes_of_def)

lemma length_field_bytes: "length (field_bytes t p) = 1 + varintSize (u64 (length p)) + length p"
  by (simp add: field_bytes_def length_varint_bytes)

lemma length_field_varint: "length (field_varint t v) = 1 + varintSize v"
  by (simp add: field_varint_def length_varint_bytes)

lemma length_field_fixed64: "length (field_fixed64 t v) = 9"
  by (simp add: field_fixed64_def)

lemma append_fixed64_eq [simp]: "append_fixed64 b t v = append_s b (field_fixed64 t v)"
  by (simp add: append_fixed64_def append_s_def copy_at_def field_fixed64_def Let_def)

lemma tags: "(push_bit 3 1 OR 2 :: byte) = 0x0A" "(push_bit 3 2 OR 2 :: byte) = 0x12" "(push_bit 3 3 OR 2 :: byte) = 0x1A"
  "(push_bit 3 4 OR 2 :: byte) = 0x22" "(push_bit 3 5 OR 2 :: byte) = 0x2A" "(push_bit 3 6 OR 2 :: byte) = 0x32"
  "(push_bit 3 1 OR 0 :: byte) = 0x08" "(push_bit 3 2 OR 0 :: byte) = 0x10" "(push_bit 3 3 OR 0 :: byte) = 0x18"
  "(push_bit 3 5 OR 0 :: byte) = 0x28" "(push_bit 3 3 OR 1 :: byte) = 0x19" "(push_bit 3 4 OR 1 :: byte) = 0x21"
  by simp_all



text \<open>The size arithmetic of every operation: a frame holding one length-delimited field.\<close>

lemma frame_assembly:
  "sz = length fs \<Longrightarrow>
   varint_bytes (u64 (1 + varintSize (u64 sz) + sz)) @ t # varint_bytes (u64 sz) @ fs
     = framed (field_bytes t fs)"
  by (simp add: framed_def field_bytes_def length_varint_bytes)


lemma length_opt_id_field:
  "length (opt_id_field t i) = (if i \<noteq> 0 then 1 + varintSize (u64 (length (id_bytes i))) + length (id_bytes i) else 0)"
  by (simp add: opt_id_field_def length_field_bytes)

lemma length_opt_loc_field:
  "length (opt_loc_field t l) = (if l \<noteq> 0 then 1 + varintSize l else 0)"
  by (simp add: opt_loc_field_def length_field_varint)

lemma proto_labels_size_eq: "proto_labels_size sz ls = sz + length (label_fields t ls)"
  unfolding proto_labels_size_def label_fields_def
  by (induction ls arbitrary: sz) (simp_all add: length_field_bytes)

lemma fst_proto_labels: "fst (proto_labels b t ls) = fst b @ label_fields t ls"
  unfolding proto_labels_def label_fields_def
  by (induction ls arbitrary: b) (simp_all add: field_bytes_def)

lemma snd_proto_labels: "snd (proto_labels b t ls) = drop (length (label_fields t ls)) (snd b)"
  unfolding proto_labels_def label_fields_def
  by (induction ls arbitrary: b) (simp_all add: length_field_bytes add.commute)

lemma SpanFinished_payload:
  "pw_w (ProtoWriter_SpanFinished pw sid el) = pw_w pw @ [fst (pw_buf pw) @ SpanFinished_record sid el]"
proof -
  let ?fs = "field_bytes 0x0A (id_bytes sid) @ field_varint 0x10 el"
  have "varint_bytes (u64 (1 + varintSize (u64 (length ?fs)) + length ?fs))
          @ 0x2A # varint_bytes (u64 (length ?fs)) @ ?fs = SpanFinished_record sid el"
    unfolding SpanFinished_record_def by (rule frame_assembly) simp
  then show ?thesis
    by (simp add: ProtoWriter_SpanFinished_def Let_def tags length_field_bytes length_field_varint)
      (simp add: field_bytes_def field_varint_def)
qed


lemma Labels_payload:
  "pw_w (ProtoWriter_Labels pw ls sid) = pw_w pw @ [fst (pw_buf pw) @ Labels_record ls sid]"
proof -
  let ?fs = "opt_id_field 0x0A sid @ label_fields 0x12 ls"
  have asm: "varint_bytes (u64 (1 + varintSize (u64 (length ?fs)) + length ?fs))
          @ 0x0A # varint_bytes (u64 (length ?fs)) @ ?fs = Labels_record ls sid"
    unfolding Labels_record_def by (rule frame_assembly) simp
  show ?thesis
  proof (cases "sid = 0")
    case True
    with asm show ?thesis
      by (simp add: ProtoWriter_Labels_def Let_def tags proto_labels_size_eq [where t = "0x12"]
          fst_proto_labels opt_id_field_def)
  next
    case False
    with asm show ?thesis
      by (simp add: ProtoWriter_Labels_def Let_def tags proto_labels_size_eq [where t = "0x12"]
          fst_proto_labels opt_id_field_def length_field_bytes)
        (simp add: field_bytes_def)
  qed
qed

lemma Metric_payload:
  "pw_w (ProtoWriter_Metric pw m sid) = pw_w pw @ [fst (pw_buf pw) @ Metric_record m sid]"
proof -
  let ?fs = "opt_id_field 0x0A sid @ field_bytes 0x12 (bytes_of (met_Name m))
        @ field_fixed64 0x19 (met_Value m) @ label_fields 0x22 (met_Labels m)"
  have asm: "varint_bytes (u64 (1 + varintSize (u64 (length ?fs)) + length ?fs))
          @ 0x32 # varint_bytes (u64 (length ?fs)) @ ?fs = Metric_record m sid"
    unfolding Metric_record_def by (rule frame_assembly) simp
  show ?thesis
  proof (cases "sid = 0")
    case True
    with asm show ?thesis
      by (simp add: ProtoWriter_Metric_def Let_def tags proto_labels_size_eq [where t = "0x22"]
          fst_proto_labels opt_id_field_def length_field_bytes length_field_fixed64 add.assoc)
         (simp add: field_bytes_def field_fixed64_def)
  next
    case False
    with asm show ?thesis
      by (simp add: ProtoWriter_Metric_def Let_def tags proto_labels_size_eq [where t = "0x22"]
          fst_proto_labels opt_id_field_def length_field_bytes length_field_fixed64 add.assoc)
         (simp add: field_bytes_def field_fixed64_def)
  qed
qed


lemma location_zero [simp]: "ProtoWriter_location e pw 0 = pw"
  by (simp add: ProtoWriter_location_def)

lemma location_fields:
  "pw_w (ProtoWriter_location e pw l) = pw_w pw"
  "pw_ls (ProtoWriter_location e pw l) = (if l = 0 then pw_ls pw else insert l (pw_ls pw))"
  by (simp_all add: ProtoWriter_location_def Let_def split: prod.splits)

lemma location_record:
  assumes "l \<noteq> 0"
  shows "fst (pw_buf (ProtoWriter_location e pw l)) = Location_record e l"
proof -
  obtain nm fl ln where nfl: "NameFileLine e l = (nm, fl, ln)" by (cases "NameFileLine e l")
  let ?fs = "field_varint 0x08 l @ field_varint 0x10 (Entry e l) @ field_bytes 0x1A (bytes_of nm)
            @ field_bytes 0x22 (bytes_of fl) @ field_varint 0x28 (of_int ln)"
  have asm: "varint_bytes (u64 (1 + varintSize (u64 (length ?fs)) + length ?fs))
          @ 0x12 # varint_bytes (u64 (length ?fs)) @ ?fs = Location_record e l"
    unfolding Location_record_def nfl prod.case by (rule frame_assembly) simp
  show ?thesis
    using assms asm
    by (simp add: ProtoWriter_location_def nfl Let_def tags reslice0_def
          length_field_bytes length_field_varint add.assoc)
       (simp add: field_bytes_def field_varint_def)
qed

lemma SpanStarted_payload:
  "pw_w (ProtoWriter_SpanStarted e pw sid par st loc) =
     pw_w pw @ [(if loc \<notin> pw_ls pw \<and> loc \<noteq> 0 then Location_record e loc else fst (pw_buf pw))
                @ SpanStarted_record sid par st loc]"
proof -
  let ?fs = "field_bytes 0x0A (id_bytes sid) @ opt_id_field 0x12 par @ opt_loc_field 0x18 loc
        @ field_fixed64 0x21 st"
  have asm: "varint_bytes (u64 (1 + varintSize (u64 (length ?fs)) + length ?fs))
          @ 0x22 # varint_bytes (u64 (length ?fs)) @ ?fs = SpanStarted_record sid par st loc"
    unfolding SpanStarted_record_def by (rule frame_assembly) simp
  define pw1 where "pw1 = (if loc \<notin> pw_ls pw then ProtoWriter_location e pw loc else pw)"
  have pre: "fst (pw_buf pw1) = (if loc \<notin> pw_ls pw \<and> loc \<noteq> 0 then Location_record e loc else fst (pw_buf pw))"
    by (simp add: pw1_def location_record)
  have w: "pw_w pw1 = pw_w pw" by (simp add: pw1_def location_fields)
  have "pw_w (ProtoWriter_SpanStarted e pw sid par st loc)
      = pw_w pw1 @ [fst (pw_buf pw1) @ SpanStarted_record sid par st loc]"
    unfolding ProtoWriter_SpanStarted_def pw1_def [symmetric]
    using asm
    by (cases "par = 0"; cases "loc = 0")
       (simp_all add: Let_def tags opt_id_field_def opt_loc_field_def length_field_bytes
          length_field_varint length_field_fixed64 length_varint_bytes add.assoc field_bytes_def
          field_varint_def)
  then show ?thesis by (simp only: pre w)
qed

lemma append_s_append_s: "append_s (append_s b xs) ys = append_s b (xs @ ys)"
  by (simp add: append_s_def add.commute)

lemma grow_cap_content: "\<exists>junk. fst (grow_cap b n) @ snd (grow_cap b n) = fst b @ junk"
proof (induction b n rule: grow_cap.induct)
  case (1 b need)
  show ?case
  proof (cases "cap_s b < need")
    case True
    with 1 obtain junk where
      "fst (grow_cap (append_s b (replicate 10 0)) need) @ snd (grow_cap (append_s b (replicate 10 0)) need)
         = fst (append_s b (replicate 10 0)) @ junk" by blast
    with True show ?thesis by (subst (1 2) grow_cap.simps) simp
  next
    case False
    then show ?thesis by (subst (1 2) grow_cap.simps) simp
  qed
qed

lemma grow_cap_enough: "n \<le> cap_s (grow_cap b n)"
proof (induction b n rule: grow_cap.induct)
  case (1 b need)
  show ?case
  proof (cases "cap_s b < need")
    case True
    with 1 show ?thesis by (subst grow_cap.simps) simp
  next
    case False
    then show ?thesis by (subst grow_cap.simps) simp
  qed
qed

lemma relocate_text_eq:
  assumes "length t \<le> tot"
  shows "\<exists>X r. relocate_text (pre @ t, s) (length pre) tot (length t) = Inr (pre, X @ t @ r)
            \<and> length X = tot - length t"
proof -
  let ?b1 = "(pre @ t, s)"
  let ?st = "length pre"
  let ?b2 = "grow_cap ?b1 (?st + tot)"
  obtain junk where all2: "fst ?b2 @ snd ?b2 = pre @ t @ junk"
    using grow_cap_content [of ?b1 "?st + tot"] by auto
  have cap2: "?st + tot \<le> cap_s ?b2" by (rule grow_cap_enough)
  have "cap_s ?b2 = length (fst ?b2 @ snd ?b2)" by (simp add: cap_s_def)
  with all2 cap2 have lj: "tot - length t \<le> length junk" by simp
  define J where "J = take (tot - length t) junk"
  have lJ: "length J = tot - length t" using lj by (simp add: J_def)
  have r1: "reslice ?b2 (?st + tot) = Inr (pre @ t @ J, drop (tot - length t) junk)"
    using cap2 assms by (simp add: reslice_def all2 J_def)
  define X where "X = take (tot - length t) (t @ J)"
  have lX: "length X = tot - length t" using lJ assms by (simp add: X_def)
  have cp: "copy_at (pre @ t @ J) (?st + tot - length t) t = pre @ X @ t"
    using lJ assms by (simp add: copy_at_def X_def Let_def)
  have r2: "reslice (pre @ X @ t, drop (tot - length t) junk) ?st
         = Inr (pre, X @ t @ drop (tot - length t) junk)"
    by (simp add: reslice_def cap_s_def)
  have "relocate_text ?b1 ?st tot (length t) = Inr (pre, X @ t @ drop (tot - length t) junk)"
    by (simp add: relocate_text_def Let_def r1 cp r2)
  with lX show ?thesis by blast
qed


lemma message_header_eq:
  "message_header b sid m sz szs l =
     append_s b (varint_bytes (u64 (1 + szs + sz)) @ 0x1A # varint_bytes (u64 sz)
        @ opt_id_field 0x0A sid @ opt_loc_field 0x10 (msg_Location m)
        @ field_fixed64 0x19 (msg_Time m) @ 0x22 # varint_bytes (u64 l))"
  by (simp add: message_header_def Let_def tags appendVarint_def appendTagVarint_def
      append_s_append_s opt_id_field_def opt_loc_field_def field_bytes_def field_varint_def)

lemma message_sz_eq:
  "message_sz sid m l = length (opt_id_field 0x0A sid) + length (opt_loc_field 0x10 (msg_Location m))
      + 9 + (1 + varintSize (u64 l) + l)"
  by (simp add: message_sz_def Let_def length_opt_id_field length_opt_loc_field)

lemma Message_record_split:
  assumes "sz = message_sz sid m (length t)" and "t = message_text e m"
  shows "(varint_bytes (u64 (1 + varintSize (u64 sz) + sz)) @ 0x1A # varint_bytes (u64 sz)
        @ opt_id_field 0x0A sid @ opt_loc_field 0x10 (msg_Location m)
        @ field_fixed64 0x19 (msg_Time m) @ 0x22 # varint_bytes (u64 (length t))) @ t
       = Message_record e m sid"
proof -
  let ?fs = "opt_id_field 0x0A sid @ opt_loc_field 0x10 (msg_Location m)
        @ field_fixed64 0x19 (msg_Time m) @ field_bytes 0x22 t"
  have "sz = length ?fs"
    by (simp add: assms(1) message_sz_eq length_field_bytes length_field_fixed64)
  then have "varint_bytes (u64 (1 + varintSize (u64 sz) + sz)) @ 0x1A # varint_bytes (u64 sz) @ ?fs
      = framed (field_bytes 0x1A ?fs)" by (rule frame_assembly)
  then show ?thesis by (simp add: Message_record_def assms(2) field_bytes_def)
qed

lemma Message_result:
  "\<exists>pw'. ProtoWriter_Message e pw m sid = Inr pw'
     \<and> pw_w pw' = pw_w pw @
           [(if msg_Location m \<notin> pw_ls pw \<and> msg_Location m \<noteq> 0
             then Location_record e (msg_Location m) else fst (pw_buf pw)) @ Message_record e m sid]
     \<and> pw_ls pw' = (if msg_Location m = 0 then pw_ls pw else insert (msg_Location m) (pw_ls pw))
     \<and> fst (pw_buf pw') = []"
proof -
  define pw1 where "pw1 = (if msg_Location m \<notin> pw_ls pw then ProtoWriter_location e pw (msg_Location m) else pw)"
  define pre where "pre = fst (pw_buf pw1)"
  define t where "t = message_text e m"
  define sz where "sz = message_sz sid m (length t)"
  define tot where "tot = varintSize (u64 (1 + varintSize (u64 sz) + sz)) + 1 + varintSize (u64 sz) + sz"
  define H where "H = varint_bytes (u64 (1 + varintSize (u64 sz) + sz)) @ 0x1A # varint_bytes (u64 sz)
        @ opt_id_field 0x0A sid @ opt_loc_field 0x10 (msg_Location m)
        @ field_fixed64 0x19 (msg_Time m) @ 0x22 # varint_bytes (u64 (length t))"
  have pre: "pre = (if msg_Location m \<notin> pw_ls pw \<and> msg_Location m \<noteq> 0
             then Location_record e (msg_Location m) else fst (pw_buf pw))"
    by (simp add: pre_def pw1_def location_record)
  have w1: "pw_w pw1 = pw_w pw" by (simp add: pw1_def location_fields)
  have ls1: "pw_ls pw1 = (if msg_Location m = 0 then pw_ls pw else insert (msg_Location m) (pw_ls pw))"
    by (auto simp add: pw1_def location_fields)
  have b1: "(case msg_Args m of
                Some args \<Rightarrow> append_s (pw_buf pw1) (AppendPrintf e (msg_Format m) args)
              | None \<Rightarrow> append_s (pw_buf pw1) (bytes_of (msg_Format m)))
            = (pre @ t, drop (length t) (snd (pw_buf pw1)))"
    by (simp add: t_def message_text_def pre_def append_s_def split: option.splits)
  have l_eq: "length (fst (pre @ t, drop (length t) (snd (pw_buf pw1)))) - length (fst (pw_buf pw1))
      = length t"
    by (simp add: pre_def)
  have lH: "length H + length t = tot"
    by (simp add: H_def tot_def sz_def message_sz_eq length_varint_bytes length_field_fixed64)
  then have le: "length t \<le> tot" by simp
  obtain X r where rel: "relocate_text (pre @ t, drop (length t) (snd (pw_buf pw1))) (length pre) tot (length t)
        = Inr (pre, X @ t @ r)" and lX: "length X = tot - length t"
    using relocate_text_eq [OF le] by blast
  have hd: "message_header (pre, X @ t @ r) sid m sz (varintSize (u64 sz)) (length t) = (pre @ H, t @ r)"
  proof -
    have "message_header (pre, X @ t @ r) sid m sz (varintSize (u64 sz)) (length t)
        = append_s (pre, X @ t @ r) H"
      unfolding message_header_eq H_def ..
    then show ?thesis using lX lH by (simp add: append_s_def)
  qed
  have rs: "reslice (pre @ H, t @ r) (length pre + tot) = Inr (pre @ H @ t, r)"
    using lH by (simp add: reslice_def cap_s_def)
  have rec: "H @ t = Message_record e m sid"
    unfolding H_def by (rule Message_record_split) (simp_all add: sz_def t_def)
  have "ProtoWriter_Message e pw m sid
      = Inr (pw1\<lparr>pw_buf := reslice0 (pre @ H @ t, r), pw_w := pw_w pw1 @ [pre @ H @ t]\<rparr>)"
    unfolding ProtoWriter_Message_def pw1_def [symmetric] Let_def b1
    unfolding l_eq
    unfolding sz_def [symmetric]
    unfolding tot_def [symmetric]
    unfolding pre_def [symmetric]
    by (simp only: rel sum.case hd rs fst_conv)
  then show ?thesis
    by (simp add: w1 ls1 pre [symmetric] rec [symmetric] reslice0_def)
qed

subsection \<open>The JSON writer: what each operation writes\<close>

lemma json_labels_prefix: "json_labels e (p @ b) i ls = p @ json_labels e b i ls"
  by (induction ls arbitrary: b i) (simp_all add: Let_def)

lemma json_labels_tail:
  \<open>json_labels e b (Suc i) ls
     = b @ concat (map (\<lambda>l. bytes_of '',"'' @ appendSafe e l @ bytes_of ''"'') ls)\<close>
  by (induction ls arbitrary: b i) (simp_all add: Let_def)

lemma json_labels_strings: "json_labels e b 0 ls = b @ json_strings e ls"
  by (cases ls) (simp_all add: json_strings_def Let_def json_labels_tail)

lemma json_metric_labels_tail:
  \<open>json_metric_labels e b (Suc i) ls
     = b @ concat (map (\<lambda>l. bytes_of '',"'' @ appendSafe e l @ bytes_of ''"'') ls)\<close>
  by (induction ls arbitrary: b i) (simp_all add: Let_def bytes_of_def)

lemma json_metric_labels_strings: "json_metric_labels e b 0 ls = b @ json_strings e ls"
  by (cases ls) (simp_all add: json_strings_def Let_def json_metric_labels_tail bytes_of_def)

lemma JSON_location_buf:
  "jw_buf (JSONWriter_location e w l)
     = jw_buf w @ (if l = 0 then [] else JSON_location_record e l)"
  by (simp add: JSON_location_record_def JSONWriter_location_def Let_def
      AppendInt_def json_int_def split: prod.splits)

lemma JSON_location_fields:
  "jw_w (JSONWriter_location e w l) = jw_w w"
  "jw_ls (JSONWriter_location e w l) = (if l = 0 then jw_ls w else insert l (jw_ls w))"
  by (simp_all add: JSONWriter_location_def Let_def split: prod.splits)

lemma JSON_Labels_step:
  "JSONWriter_Labels e w ls sid =
     w\<lparr>jw_buf := [], jw_w := jw_w w @ [jw_buf w @ JSON_event_record e (EvLabels ls sid)]\<rparr>"
  by (simp add: JSONWriter_Labels_def Let_def json_id_def json_span_member_def
      json_labels_strings)

lemma JSON_Metric_step:
  "JSONWriter_Metric e w m sid =
     w\<lparr>jw_buf := [], jw_w := jw_w w @ [jw_buf w @ JSON_event_record e (EvMetric m sid)]\<rparr>"
  by (simp add: JSONWriter_Metric_def Let_def json_id_def json_span_member_def
      json_metric_labels_strings)

lemma JSON_SpanFinished_step:
  "JSONWriter_SpanFinished e w sid el =
     w\<lparr>jw_buf := [], jw_w := jw_w w @ [jw_buf w @ JSON_event_record e (EvSpanFinished sid el)]\<rparr>"
  by (simp add: JSONWriter_SpanFinished_def Let_def json_id_def AppendInt_def json_int_def)

lemma JSON_Message_step:
  "JSONWriter_Message e w m sid =
     w\<lparr>jw_ls := (if msg_Location m = 0 then jw_ls w else insert (msg_Location m) (jw_ls w)),
       jw_buf := [],
       jw_w := jw_w w @ [jw_buf w
          @ (if msg_Location m \<noteq> 0 \<and> msg_Location m \<notin> jw_ls w
             then JSON_location_record e (msg_Location m) else [])
          @ JSON_event_record e (EvMessage m sid)]\<rparr>"
  apply (simp add: JSONWriter_Message_def Let_def json_id_def json_span_member_def message_text_def
      AppendInt_def json_int_def JSON_location_buf JSON_location_fields split: option.splits)
  apply (auto simp add: insert_absorb)
  done

lemma JSON_SpanStarted_step:
  "JSONWriter_SpanStarted e w sid par st loc =
     w\<lparr>jw_ls := (if loc = 0 then jw_ls w else insert loc (jw_ls w)),
       jw_buf := [],
       jw_w := jw_w w @ [jw_buf w
          @ (if loc \<noteq> 0 \<and> loc \<notin> jw_ls w then JSON_location_record e loc else [])
          @ JSON_event_record e (EvSpanStarted sid par st loc)]\<rparr>"
  apply (simp add: JSONWriter_SpanStarted_def Let_def json_id_def
      AppendInt_def json_int_def JSON_location_buf JSON_location_fields)
  apply (auto simp add: insert_absorb)
  done

subsection \<open>Sequences of events and the location records among them\<close>

lemma JSON_write_step:
  "JSONWriter_write e w ev =
     w\<lparr>jw_ls := (if event_location ev = 0 then jw_ls w else insert (event_location ev) (jw_ls w)),
       jw_buf := [],
       jw_w := jw_w w @ [jw_buf w
          @ (if event_location ev \<noteq> 0 \<and> event_location ev \<notin> jw_ls w
             then JSON_location_record e (event_location ev) else [])
          @ JSON_event_record e ev]\<rparr>"
  by (cases ev)
     (simp_all add: JSON_Labels_step JSON_Message_step JSON_Metric_step JSON_SpanStarted_step
        JSON_SpanFinished_step)

lemma JSON_run_w:
  "jw_buf w = [] \<Longrightarrow>
   jw_w (JSONWriter_run e w evs) = jw_w w @ map (concat \<circ> map (JSON_render e)) (emitted (jw_ls w) evs)"
proof (induction evs arbitrary: w)
  case Nil
  show ?case by simp
next
  case (Cons ev evs)
  let ?w' = "JSONWriter_write e w ev"
  have buf: "jw_buf ?w' = []" by (subst JSON_write_step) simp
  have ls: "jw_ls ?w' = (if event_location ev = 0 then jw_ls w else insert (event_location ev) (jw_ls w))"
    by (subst JSON_write_step) simp
  have out: "jw_w ?w' = jw_w w @ [(if event_location ev \<noteq> 0 \<and> event_location ev \<notin> jw_ls w
             then JSON_location_record e (event_location ev) else [])
          @ JSON_event_record e ev]"
    by (subst JSON_write_step) (simp add: Cons.prems)
  show ?case
    using Cons.IH [OF buf] by (auto simp add: ls out insert_absorb)
qed

lemma Proto_write_step:
  "\<exists>pw'. ProtoWriter_write e pw ev = Inr pw'
     \<and> pw_w pw' = pw_w pw @
          [(if event_location ev \<noteq> 0 \<and> event_location ev \<notin> pw_ls pw
            then Location_record e (event_location ev) else fst (pw_buf pw))
           @ Proto_event_record e ev]
     \<and> pw_ls pw' = (if event_location ev = 0 then pw_ls pw else insert (event_location ev) (pw_ls pw))
     \<and> fst (pw_buf pw') = []"
proof (cases ev)
  case (EvLabels ls sid)
  then show ?thesis
    by (simp add: Labels_payload) (simp add: ProtoWriter_Labels_def Let_def reslice0_def)
next
  case (EvMessage m sid)
  then show ?thesis using Message_result [of e pw m sid] by auto
next
  case (EvMetric m sid)
  then show ?thesis
    by (simp add: Metric_payload) (simp add: ProtoWriter_Metric_def Let_def reslice0_def)
next
  case (EvSpanStarted sid par st loc)
  have "pw_ls (ProtoWriter_SpanStarted e pw sid par st loc) = (if loc = 0 then pw_ls pw else insert loc (pw_ls pw))"
    by (auto simp add: ProtoWriter_SpanStarted_def Let_def location_fields)
  moreover have "fst (pw_buf (ProtoWriter_SpanStarted e pw sid par st loc)) = []"
    by (simp add: ProtoWriter_SpanStarted_def Let_def reslice0_def)
  ultimately show ?thesis using EvSpanStarted
    by (simp add: SpanStarted_payload)
next
  case (EvSpanFinished sid el)
  then show ?thesis
    by (simp add: SpanFinished_payload) (simp add: ProtoWriter_SpanFinished_def Let_def reslice0_def)
qed

lemma Proto_run_w:
  "fst (pw_buf pw) = [] \<Longrightarrow>
   \<exists>pw'. ProtoWriter_run e pw evs = Inr pw'
     \<and> pw_w pw' = pw_w pw @ map (concat \<circ> map (Proto_render e)) (emitted (pw_ls pw) evs)"
proof (induction evs arbitrary: pw)
  case Nil
  show ?case by simp
next
  case (Cons ev evs)
  obtain pw1 where step: "ProtoWriter_write e pw ev = Inr pw1"
    and out: "pw_w pw1 = pw_w pw @
          [(if event_location ev \<noteq> 0 \<and> event_location ev \<notin> pw_ls pw
            then Location_record e (event_location ev) else fst (pw_buf pw))
           @ Proto_event_record e ev]"
    and ls: "pw_ls pw1 = (if event_location ev = 0 then pw_ls pw else insert (event_location ev) (pw_ls pw))"
    and buf: "fst (pw_buf pw1) = []"
    using Proto_write_step [of e pw ev] by blast
  obtain pw' where run: "ProtoWriter_run e pw1 evs = Inr pw'"
    and w: "pw_w pw' = pw_w pw1 @ map (concat \<circ> map (Proto_render e)) (emitted (pw_ls pw1) evs)"
    using Cons.IH [OF buf] by blast
  show ?case
    using step run w out ls Cons.prems by (auto simp add: insert_absorb)
qed

lemma emitted_seen:
  "L \<in> seen \<Longrightarrow> LocationRecord L \<notin> set (concat (emitted seen evs))"
  by (induction evs arbitrary: seen) auto

lemma emitted_first:
  assumes "L \<noteq> 0" and "L \<notin> seen" and "L \<in> event_location ` set evs"
  shows "\<exists>before ev after. concat (emitted seen evs) = before @ LocationRecord L # EventRecord ev # after
      \<and> event_location ev = L
      \<and> LocationRecord L \<notin> set before \<and> LocationRecord L \<notin> set after
      \<and> (\<forall>ev'. EventRecord ev' \<in> set before \<longrightarrow> event_location ev' \<noteq> L)"
  using assms(2,3)
proof (induction evs arbitrary: seen)
  case Nil
  then show ?case by simp
next
  case (Cons ev evs)
  show ?case
  proof (cases "event_location ev = L")
    case True
    have "LocationRecord L \<notin> set (concat (emitted (insert L seen) evs))"
      by (rule emitted_seen) simp
    with True assms(1) Cons.prems(1) show ?thesis
      by (intro exI [of _ "[]"] exI [of _ ev] exI [of _ "concat (emitted (insert L seen) evs)"]) simp
  next
    case False
    define seen' where "seen' = (if event_location ev \<noteq> 0 \<and> event_location ev \<notin> seen
        then insert (event_location ev) seen else seen)"
    define h where "h = (if event_location ev \<noteq> 0 \<and> event_location ev \<notin> seen
        then [LocationRecord (event_location ev), EventRecord ev] else [EventRecord ev])"
    have unfold: "concat (emitted seen (ev # evs)) = h @ concat (emitted seen' evs)"
      by (simp add: h_def seen'_def)
    have "L \<notin> seen'" using False Cons.prems(1) by (simp add: seen'_def)
    moreover have "L \<in> event_location ` set evs" using False Cons.prems(2) by auto
    ultimately obtain before ev0 after where
      eq: "concat (emitted seen' evs) = before @ LocationRecord L # EventRecord ev0 # after"
      and props: "event_location ev0 = L" "LocationRecord L \<notin> set before" "LocationRecord L \<notin> set after"
        "\<forall>ev'. EventRecord ev' \<in> set before \<longrightarrow> event_location ev' \<noteq> L"
      using Cons.IH by blast
    have h1: "LocationRecord L \<notin> set h" using False by (auto simp add: h_def)
    have h2: "\<forall>ev'. EventRecord ev' \<in> set h \<longrightarrow> event_location ev' \<noteq> L"
      using False by (auto simp add: h_def)
    show ?thesis
      unfolding unfold eq
      using props h1 h2
      by (intro exI [of _ "h @ before"] exI [of _ ev0] exI [of _ after]) auto
  qed
qed

subsection \<open>When a record of a text format is one line\<close>

lemma one_line_append:
  "one_line (xs @ ys) = (if ys = [] then one_line xs else 0x0A \<notin> set xs \<and> one_line ys)"
  by (auto simp add: one_line_def butlast_append)

lemma one_line_single: "one_line [0x0A]"
  by (simp add: one_line_def)

lemma one_line_snoc: "one_line (xs @ [0x0A]) = (0x0A \<notin> set xs)"
  by (simp add: one_line_def)






lemma bytes_of_append: "bytes_of (a @ b) = bytes_of a @ bytes_of b"
  by (simp add: bytes_of_def)


lemma one_line_parts:
  "one_line (xs @ y # ys) = (0x0A \<notin> set xs \<and> one_line (y # ys))"
  "one_line (xs @ ys @ zs) = (if ys @ zs = [] then one_line xs else 0x0A \<notin> set xs \<and> one_line (ys @ zs))"
  by (simp_all add: one_line_append)










subsection \<open>The console writer: the line of each operation that returns\<close>











subsection \<open>Reading a frame back\<close>







subsection \<open>Messages without a location\<close>

text \<open>
  Claim C10. For every message whose location is zero: \<^verbatim>\<open>JSONWriter.Message\<close> leaves
  the set of seen locations as it was and performs one write, of what the buffer held
  followed by the message object alone, which has the members \<^verbatim>\<open>"s"\<close> (when the span id
  is not zero), \<^verbatim>\<open>"t"\<close> and \<^verbatim>\<open>"m"\<close> and no member \<^verbatim>\<open>"l"\<close>; \<^verbatim>\<open>ProtoWriter.Message\<close>
  returns, leaves the set of seen locations as it was and performs one write, of what
  the buffer held followed by the one frame of a message, whose sub-message has the
  fields 1 (when the span id is not zero), 3 and 4 and no field 2. Neither write holds
  a location record.
\<close>

theorem Message_zero_location:
  \<open>jw_ls (JSONWriter_Message e jw (m\<lparr>msg_Location := 0\<rparr>) sid) = jw_ls jw
   \<and> jw_w (JSONWriter_Message e jw (m\<lparr>msg_Location := 0\<rparr>) sid)
       = jw_w jw @ [jw_buf jw @ bytes_of ''{"m":{'' @ json_span_member e sid
                     @ bytes_of ''"t":'' @ json_int (sint (msg_Time m))
                     @ bytes_of '',"m":"'' @ message_text e m @ bytes_of ''"}}'' @ [0x0A]]
   \<and> (\<exists>pw'. ProtoWriter_Message e pw (m\<lparr>msg_Location := 0\<rparr>) sid = Inr pw'
         \<and> pw_ls pw' = pw_ls pw
         \<and> pw_w pw' = pw_w pw @ [fst (pw_buf pw)
              @ framed (field_bytes 0x1A (opt_id_field 0x0A sid
                  @ field_fixed64 0x19 (msg_Time m) @ field_bytes 0x22 (message_text e m)))])\<close>
proof (intro conjI)
  show "jw_ls (JSONWriter_Message e jw (m\<lparr>msg_Location := 0\<rparr>) sid) = jw_ls jw"
    by (subst JSON_Message_step) simp
next
  show \<open>jw_w (JSONWriter_Message e jw (m\<lparr>msg_Location := 0\<rparr>) sid)
       = jw_w jw @ [jw_buf jw @ bytes_of ''{"m":{'' @ json_span_member e sid
                     @ bytes_of ''"t":'' @ json_int (sint (msg_Time m))
                     @ bytes_of '',"m":"'' @ message_text e m @ bytes_of ''"}}'' @ [0x0A]]\<close>
    by (subst JSON_Message_step) (simp add: message_text_def split: option.splits)
next
  obtain pw' where r: "ProtoWriter_Message e pw (m\<lparr>msg_Location := 0\<rparr>) sid = Inr pw'"
    and w: "pw_w pw' = pw_w pw @ [fst (pw_buf pw) @ Message_record e (m\<lparr>msg_Location := 0\<rparr>) sid]"
    and ls: "pw_ls pw' = pw_ls pw"
    using Message_result [of e pw "m\<lparr>msg_Location := 0\<rparr>" sid] by auto
  have "Message_record e (m\<lparr>msg_Location := 0\<rparr>) sid
      = framed (field_bytes 0x1A (opt_id_field 0x0A sid
                  @ field_fixed64 0x19 (msg_Time m) @ field_bytes 0x22 (message_text e m)))"
    by (simp add: Message_record_def opt_loc_field_def message_text_def split: option.splits)
  with r w ls show "\<exists>pw'. ProtoWriter_Message e pw (m\<lparr>msg_Location := 0\<rparr>) sid = Inr pw'
         \<and> pw_ls pw' = pw_ls pw
         \<and> pw_w pw' = pw_w pw @ [fst (pw_buf pw)
              @ framed (field_bytes 0x1A (opt_id_field 0x0A sid
                  @ field_fixed64 0x19 (msg_Time m) @ field_bytes 0x22 (message_text e m)))]"
    by simp
qed

subsection \<open>One write for each operation\<close>









subsection \<open>One location record, before the first event that refers to it\<close>

text \<open>
  Claim C1. Let a new JSON writer and a new binary writer be driven through any finite
  sequence of operations, and let \<open>L\<close> be a location other than zero that some message
  or started span of the sequence carries. Each writer performs one write for each
  operation, the binary writer without a panic, and the writes hold, in the order of
  \<^const>\<open>emitted\<close>, the records of the events and of their locations. Among these records
  the one of \<open>L\<close> occurs exactly once; no event record before it refers to \<open>L\<close>, and the
  record right after it, in the same write, is that of an event that does.
\<close>

theorem Location_record_once_before_first_use:
  assumes "L \<noteq> 0" and "L \<in> event_location ` set evs"
  shows "jw_w (JSONWriter_run e NewJSONWriter evs)
           = map (concat \<circ> map (JSON_render e)) (emitted {} evs)
       \<and> (\<exists>pw'. ProtoWriter_run e NewProtoWriter evs = Inr pw'
             \<and> pw_w pw' = map (concat \<circ> map (Proto_render e)) (emitted {} evs))
       \<and> (\<exists>before ev after.
             concat (emitted {} evs) = before @ LocationRecord L # EventRecord ev # after
             \<and> event_location ev = L
             \<and> LocationRecord L \<notin> set before \<and> LocationRecord L \<notin> set after
             \<and> (\<forall>ev'. EventRecord ev' \<in> set before \<longrightarrow> event_location ev' \<noteq> L))"
proof (intro conjI)
  show "jw_w (JSONWriter_run e NewJSONWriter evs)
           = map (concat \<circ> map (JSON_render e)) (emitted {} evs)"
    using JSON_run_w [of NewJSONWriter e evs] by (simp add: NewJSONWriter_def)
next
  show "\<exists>pw'. ProtoWriter_run e NewProtoWriter evs = Inr pw'
             \<and> pw_w pw' = map (concat \<circ> map (Proto_render e)) (emitted {} evs)"
    using Proto_run_w [of NewProtoWriter e evs] by (simp add: NewProtoWriter_def)
next
  show "\<exists>before ev after.
             concat (emitted {} evs) = before @ LocationRecord L # EventRecord ev # after
             \<and> event_location ev = L
             \<and> LocationRecord L \<notin> set before \<and> LocationRecord L \<notin> set after
             \<and> (\<forall>ev'. EventRecord ev' \<in> set before \<longrightarrow> event_location ev' \<noteq> L)"
    using assms by (intro emitted_first) simp_all
qed

theorem Location_record_once_before_first_use_witness:
  "(42 :: Location) \<noteq> 0
   \<and> 42 \<in> event_location ` set
        [EvSpanFinished 1 5,
         EvMessage \<lparr>msg_Location = 42, msg_Time = 7, msg_Format = ''x'', msg_Args = None\<rparr> 0,
         EvSpanStarted 1 0 9 42]
   \<and> concat (emitted {}
        [EvSpanFinished 1 5,
         EvMessage \<lparr>msg_Location = 42, msg_Time = 7, msg_Format = ''x'', msg_Args = None\<rparr> 0,
         EvSpanStarted 1 0 9 42])
      = [EventRecord (EvSpanFinished 1 5),
         LocationRecord 42,
         EventRecord (EvMessage \<lparr>msg_Location = 42, msg_Time = 7, msg_Format = ''x'', msg_Args = None\<rparr> 0),
         EventRecord (EvSpanStarted 1 0 9 42)]
   \<and> jw_w (JSONWriter_run (example_env ''main.main'' ''main.go'' 17) NewJSONWriter
        [EvSpanFinished 1 5,
         EvMessage \<lparr>msg_Location = 42, msg_Time = 7, msg_Format = ''x'', msg_Args = None\<rparr> 0,
         EvSpanStarted 1 0 9 42])
      = map (concat \<circ> map (JSON_render (example_env ''main.main'' ''main.go'' 17)))
          (emitted {}
            [EvSpanFinished 1 5,
             EvMessage \<lparr>msg_Location = 42, msg_Time = 7, msg_Format = ''x'', msg_Args = None\<rparr> 0,
             EvSpanStarted 1 0 9 42])
   \<and> (\<exists>pw'. ProtoWriter_run (example_env ''main.main'' ''main.go'' 17) NewProtoWriter
        [EvSpanFinished 1 5,
         EvMessage \<lparr>msg_Location = 42, msg_Time = 7, msg_Format = ''x'', msg_Args = None\<rparr> 0,
         EvSpanStarted 1 0 9 42] = Inr pw'
        \<and> pw_w pw' = map (concat \<circ> map (Proto_render (example_env ''main.main'' ''main.go'' 17)))
          (emitted {}
            [EvSpanFinished 1 5,
             EvMessage \<lparr>msg_Location = 42, msg_Time = 7, msg_Format = ''x'', msg_Args = None\<rparr> 0,
             EvSpanStarted 1 0 9 42]))"
proof -
  let ?evs = "[EvSpanFinished 1 5,
         EvMessage \<lparr>msg_Location = 42, msg_Time = 7, msg_Format = ''x'', msg_Args = None\<rparr> 0,
         EvSpanStarted 1 0 9 42]"
  have a: "(42 :: Location) \<noteq> 0" by simp
  have b: "42 \<in> event_location ` set ?evs" by simp
  have c: "concat (emitted {} ?evs)
      = [EventRecord (EvSpanFinished 1 5),
         LocationRecord 42,
         EventRecord (EvMessage \<lparr>msg_Location = 42, msg_Time = 7, msg_Format = ''x'', msg_Args = None\<rparr> 0),
         EventRecord (EvSpanStarted 1 0 9 42)]"
    by simp
  from Location_record_once_before_first_use
         [OF a b, of "example_env ''main.main'' ''main.go'' 17"] a b c
  show ?thesis by blast
qed

end
